theory Spec2Isabelle
  imports Complex_Main "HOL-Library.Char_ord" "HOL-Library.List_Lexorder"
begin

section \<open>The containers of the C++ standard library\<close>

text \<open>
  A \<^verbatim>\<open>std::map<std::string, V>\<close> is modelled as the list of its entries in iteration
  order, that is in strictly increasing order of the keys. \<^verbatim>\<open>std::string\<close> compares
  lexicographically, byte by byte as unsigned values, which is the order of
  \<^typ>\<open>string\<close> given by the character and list orders imported above. A loop from
  \<^verbatim>\<open>begin()\<close> to \<^verbatim>\<open>end()\<close> visits the list from left to right.
\<close>

type_synonym ('k, 'v) stdmap = "('k \<times> 'v) list"

text \<open>The class invariant of \<^verbatim>\<open>std::map\<close>: keys strictly increasing, hence unique.\<close>

definition stdmap_inv :: "('k::linorder, 'v) stdmap \<Rightarrow> bool" where
  "stdmap_inv m = sorted_wrt (<) (map fst m)"

text \<open>\<^verbatim>\<open>m.find(k)\<close>: \<open>None\<close> stands for \<^verbatim>\<open>m.end()\<close>.\<close>

definition map_find :: "('k, 'v) stdmap \<Rightarrow> 'k \<Rightarrow> 'v option" where
  "map_find m k = map_of m k"

text \<open>
  \<^verbatim>\<open>m.insert(make_pair(k, v))\<close>: the pair is added at its place in the key order; when
  the key is already present the map is left as it is (the stored value is not
  overwritten).
\<close>

fun map_insert :: "'k::linorder \<times> 'v \<Rightarrow> ('k, 'v) stdmap \<Rightarrow> ('k, 'v) stdmap" where
  "map_insert (k, v) [] = [(k, v)]"
| "map_insert (k, v) ((k', v') # m) =
     (if k < k' then (k, v) # (k', v') # m
      else if k = k' then (k', v') # m
      else (k', v') # map_insert (k, v) m)"

section \<open>The body model and the kinematic tree\<close>

text \<open>
  The joint positions, multipliers and offsets are C++ \<^verbatim>\<open>double\<close>s. Their type is the
  type variable \<open>'d\<close>; the source only multiplies and adds them and passes the constant
  zero, so the functions below ask for these operations only and every theorem holds
  whatever the arithmetic of \<open>'d\<close> does.
\<close>

text \<open>\<^verbatim>\<open>urdf::JointMimic\<close>: the fields read by the publisher.\<close>

record 'd JointMimic =
  offset :: 'd
  multiplier :: 'd
  joint_name :: string

text \<open>The enumeration of \<^verbatim>\<open>urdf::Joint::type\<close>.\<close>

datatype urdf_joint_type = UNKNOWN | REVOLUTE | CONTINUOUS | PRISMATIC | FLOATING | PLANAR | FIXED

text \<open>
  \<^verbatim>\<open>urdf::Joint\<close>: its type and its mimic relation, a shared pointer that is null
  (\<open>None\<close>) for a joint that mimics no other.
\<close>

record 'd Joint =
  type :: urdf_joint_type
  mimic :: "'d JointMimic option"

text \<open>
  \<^verbatim>\<open>urdf::Model\<close>: the table from joint names to joints. An Isabelle name cannot end
  in an underscore, so the member \<^verbatim>\<open>joints_\<close> is the field \<open>joints\<close>, and likewise for
  the members of the publisher below.
\<close>

record 'd Model =
  joints :: "(string, 'd Joint) stdmap"

text \<open>\<^verbatim>\<open>Model::getJoint(name)\<close>: the joint of that name, a null pointer when there is none.\<close>

definition getJoint :: "'d Model \<Rightarrow> string \<Rightarrow> 'd Joint option" where
  "getJoint model name = map_find (joints model) name"

text \<open>The enumeration \<^verbatim>\<open>KDL::Joint::JointType\<close>; \<open>JNone\<close> is \<^verbatim>\<open>KDL::Joint::None\<close>.\<close>

datatype kdl_joint_type =
  RotAxis | RotX | RotY | RotZ | TransAxis | TransX | TransY | TransZ | JNone

record KDLJoint =
  jntName :: string
  jntType :: kdl_joint_type

text \<open>
  \<^verbatim>\<open>KDL::Segment\<close>: its name, its joint and its pose as a function of the joint
  position. The rigid transform has the abstract type \<open>'f\<close>; \<^verbatim>\<open>tf2::kdlToTransform\<close>
  only changes its representation and is not modelled.
\<close>

record ('d, 'f) Segment =
  getName :: string
  getJoint_of :: KDLJoint
  pose :: "'d \<Rightarrow> 'f"

text \<open>
  A \<^verbatim>\<open>KDL::TreeElement\<close> reached through an iterator of the segment map: its segment
  and the elements its \<^verbatim>\<open>children\<close> iterators point to.
\<close>

datatype ('d, 'f) TreeElement =
  TreeElement (GetTreeElementSegment: "('d, 'f) Segment")
              (GetTreeElementChildren: "('d, 'f) TreeElement list")

text \<open>\<^verbatim>\<open>SegmentPair\<close>: a segment with the names of its parent and child frames.\<close>

record ('d, 'f) SegmentPair =
  segment :: "('d, 'f) Segment"
  root :: string
  tip :: string

section \<open>Time, messages and the publisher's state\<close>

text \<open>
  A \<^verbatim>\<open>ros::Time\<close> is the number of nanoseconds since the epoch. The range check of
  the library's dual 32-bit representation is outside the publisher and not modelled.
\<close>

type_synonym Time = int

text \<open>\<^verbatim>\<open>ros::Duration(0.5)\<close>, in nanoseconds.\<close>

definition Duration_half_second :: int where
  "Duration_half_second = 500000000"

text \<open>\<^verbatim>\<open>geometry_msgs::TransformStamped\<close>.\<close>

record 'f TransformStamped =
  stamp :: Time
  frame_id :: string
  child_frame_id :: string
  transform :: 'f

text \<open>
  The state of a \<^verbatim>\<open>RobotStatePublisher\<close>. The first six fields are the members
  \<^verbatim>\<open>initialized_\<close>, \<^verbatim>\<open>model_\<close>, \<^verbatim>\<open>mimic_\<close>, \<^verbatim>\<open>segments_\<close>, \<^verbatim>\<open>segments_fixed_\<close> and
  \<^verbatim>\<open>urdf_changed_\<close>; the fields of \<^verbatim>\<open>model_\<close> and \<^verbatim>\<open>mimic_\<close> are called \<open>model_urdf\<close>
  and \<open>mimic_map\<close>, apart from the variables and fields of those names. \<open>tree\<close> and \<open>urdf_ptr\<close> are what \<^verbatim>\<open>getTree().getRootSegment()\<close>
  and \<^verbatim>\<open>getUrdfPtr()\<close> of the base class \<^verbatim>\<open>RobotKDLTree\<close> return. The two
  broadcasters are modelled by the batches handed to \<^verbatim>\<open>sendTransform\<close> so far, oldest
  first. \<open>clock_reads\<close> counts the calls of \<^verbatim>\<open>ros::Time::now()\<close>; \<open>throttle_last_hit\<close> and
  \<open>rosout\<close> belong to the throttled warning of \<^verbatim>\<open>publishTransforms\<close>: the time of the
  last warning printed, and the warnings printed so far, each with its time and the
  joint name it reports.
\<close>

record ('d, 'f) RobotStatePublisher =
  initialized :: bool
  model_urdf :: "'d Model"
  mimic_map :: "(string, 'd JointMimic) stdmap"
  segments :: "(string, ('d, 'f) SegmentPair) stdmap"
  segments_fixed :: "(string, ('d, 'f) SegmentPair) stdmap"
  urdf_changed :: bool
  tree :: "('d, 'f) TreeElement"
  urdf_ptr :: "'d Model option"
  tf_broadcaster :: "'f TransformStamped list list"
  static_tf_broadcaster :: "'f TransformStamped list list"
  clock_reads :: nat
  throttle_last_hit :: Time
  rosout :: "(Time \<times> string) list"

section \<open>The mimic map\<close>

text \<open>
  The loop of \<^verbatim>\<open>setJointMimicMap\<close> over \<^verbatim>\<open>model.joints_\<close>: a joint whose \<^verbatim>\<open>mimic\<close>
  pointer is set is inserted under its own name.
\<close>

fun setJointMimicMap_loop ::
  "(string, 'd Joint) stdmap \<Rightarrow> (string, 'd JointMimic) stdmap \<Rightarrow> (string, 'd JointMimic) stdmap"
where
  "setJointMimicMap_loop [] mm = mm"
| "setJointMimicMap_loop ((first, second) # rest) mm =
     setJointMimicMap_loop rest
       (case mimic second of
          Some m \<Rightarrow> map_insert (first, m) mm
        | None \<Rightarrow> mm)"

text \<open>
  \<^verbatim>\<open>setJointMimicMap\<close>: the writer waits for the lock, so it always runs; the map is
  cleared and filled again.
\<close>

definition setJointMimicMap ::
  "'d Model \<Rightarrow> ('d, 'f) RobotStatePublisher \<Rightarrow> ('d, 'f) RobotStatePublisher" where
  "setJointMimicMap model s = s\<lparr>mimic_map := setJointMimicMap_loop (joints model) []\<rparr>"

text \<open>
  The loop of \<^verbatim>\<open>getJointMimicPositions\<close> over \<^verbatim>\<open>mimic_\<close>. It reads the map of
  positions that it is extending: an entry is looked up in the positions as they are
  when the entry is reached.
\<close>

fun getJointMimicPositions_loop ::
  "(string, 'd::{times,plus} JointMimic) stdmap \<Rightarrow> (string, 'd) stdmap \<Rightarrow> (string, 'd) stdmap"
where
  "getJointMimicPositions_loop [] joint_positions = joint_positions"
| "getJointMimicPositions_loop ((first, second) # rest) joint_positions =
     getJointMimicPositions_loop rest
       (case map_find joint_positions (joint_name second) of
          Some p \<Rightarrow>
            map_insert (first, p * multiplier second + offset second) joint_positions
        | None \<Rightarrow> joint_positions)"

text \<open>
  \<^verbatim>\<open>getJointMimicPositions\<close>: \<open>owns_lock\<close> is the outcome of the attempt to take the
  shared lock on the mimic map. The result is the returned flag and the positions,
  which the source updates in place.
\<close>

definition getJointMimicPositions ::
  "bool \<Rightarrow> ('d::{times,plus}, 'f) RobotStatePublisher \<Rightarrow> (string, 'd) stdmap
     \<Rightarrow> bool \<times> (string, 'd) stdmap" where
  "getJointMimicPositions owns_lock s joint_positions =
     (if \<not> owns_lock then (False, joint_positions)
      else (True, getJointMimicPositions_loop (mimic_map s) joint_positions))"

text \<open>\<^verbatim>\<open>stripSlash\<close>: \<^verbatim>\<open>in.substr(1)\<close> drops the first character.\<close>

definition stripSlash :: "string \<Rightarrow> string" where
  "stripSlash in_str =
     (if length in_str \<noteq> 0 \<and> in_str ! 0 = CHR ''/'' then drop 1 in_str else in_str)"

section \<open>The tree builder\<close>

text \<open>
  \<^verbatim>\<open>addChildren\<close> and its loop over the children of a tree element. \<open>root_name\<close> is
  the name of the parent segment. A child whose joint has the kinematic type
  \<^verbatim>\<open>KDL::Joint::None\<close> goes to the fixed table unless the body model knows the joint
  and gives it the type \<^verbatim>\<open>FLOATING\<close>; a child of any other kinematic type goes to
  the moving table. The recursion follows the children of the tree.
\<close>

fun addChildren ::
  "('d, 'f) TreeElement \<Rightarrow> ('d, 'f) RobotStatePublisher \<Rightarrow> ('d, 'f) RobotStatePublisher"
and addChildren_loop ::
  "string \<Rightarrow> ('d, 'f) TreeElement list \<Rightarrow> ('d, 'f) RobotStatePublisher
     \<Rightarrow> ('d, 'f) RobotStatePublisher"
where
  "addChildren (TreeElement seg children) st = addChildren_loop (getName seg) children st"
| "addChildren_loop root_name [] st = st"
| "addChildren_loop root_name (c # cs) st =
     (let child = GetTreeElementSegment c;
          s = \<lparr>segment = child, root = root_name, tip = getName child\<rparr>;
          st' =
            (if jntType (getJoint_of child) = JNone then
               (if (case getJoint (model_urdf st) (jntName (getJoint_of child)) of
                      Some j \<Rightarrow> type j = FLOATING
                    | None \<Rightarrow> False)
                then st
                else st\<lparr>segments_fixed :=
                          map_insert (jntName (getJoint_of child), s) (segments_fixed st)\<rparr>)
             else st\<lparr>segments := map_insert (jntName (getJoint_of child), s) (segments st)\<rparr>)
      in addChildren_loop root_name cs (addChildren c st'))"

text \<open>
  \<^verbatim>\<open>init\<close>: \<open>kdl_tree\<close> is the outcome of \<^verbatim>\<open>RobotKDLTree::init()\<close> of the base class,
  the tree it built or \<open>None\<close> when it failed.
\<close>

definition init ::
  "('d, 'f) TreeElement option \<Rightarrow> ('d, 'f) RobotStatePublisher
     \<Rightarrow> bool \<times> ('d, 'f) RobotStatePublisher" where
  "init kdl_tree st =
     (case kdl_tree of
        Some t \<Rightarrow> (True, (addChildren t (st\<lparr>tree := t\<rparr>))\<lparr>initialized := True\<rparr>)
      | None \<Rightarrow> (initialized st, st))"

text \<open>
  \<^verbatim>\<open>onURDFSwap\<close>: \<open>new_tree\<close> and \<open>new_urdf\<close> are the tree and the model pointer that
  the base class holds after \<^verbatim>\<open>RobotKDLTree::onURDFSwap(link_name)\<close>.
\<close>

definition onURDFSwap ::
  "('d, 'f) TreeElement \<Rightarrow> 'd Model option \<Rightarrow> ('d, 'f) RobotStatePublisher
     \<Rightarrow> ('d, 'f) RobotStatePublisher" where
  "onURDFSwap new_tree new_urdf st =
     (if \<not> initialized st then st
      else
        let st1 = st\<lparr>tree := new_tree, urdf_ptr := new_urdf\<rparr>;
            st2 = st1\<lparr>segments_fixed := [], segments := []\<rparr>;
            st3 = addChildren (tree st2) st2;
            st4 = (case urdf_ptr st3 of
                     Some m \<Rightarrow> setJointMimicMap m st3
                   | None \<Rightarrow> st3)
        in st4\<lparr>urdf_changed := True\<rparr>)"

section \<open>Publishing\<close>

text \<open>
  The clock is a function \<open>clock\<close>: \<open>clock n\<close> is what the call number \<open>n\<close> of
  \<^verbatim>\<open>ros::Time::now()\<close> returns.
\<close>

text \<open>
  Modelled from the spec: the macro \<^verbatim>\<open>ROS_WARN_THROTTLE(period, ...)\<close> of the logging
  library is not defined in the source file; the spec has it record a warning "at most
  once per bounded interval". The macro reads the clock, keeps the time of the last
  warning printed at its place in the code, zero at the start, and prints when at
  least \<open>period\<close> seconds have passed since then. There is one such place, so one
  time for all joints. \<open>name\<close> is the joint name that the message reports; a
  printed warning is recorded with its time.
\<close>

definition ROS_WARN_THROTTLE ::
  "(nat \<Rightarrow> Time) \<Rightarrow> int \<Rightarrow> string \<Rightarrow> ('d, 'f) RobotStatePublisher
     \<Rightarrow> ('d, 'f) RobotStatePublisher" where
  "ROS_WARN_THROTTLE clock period name st =
     (let now = clock (clock_reads st);
          st' = st\<lparr>clock_reads := Suc (clock_reads st)\<rparr>
      in if throttle_last_hit st + period * 1000000000 \<le> now
         then st'\<lparr>throttle_last_hit := now, rosout := rosout st @ [(now, name)]\<rparr>
         else st')"

text \<open>
  The loop of \<^verbatim>\<open>publishTransforms\<close> over the joint positions; \<open>tf_transforms\<close> is the
  vector built so far.
\<close>

fun publishTransforms_loop ::
  "(nat \<Rightarrow> Time) \<Rightarrow> (string, 'd) stdmap \<Rightarrow> Time \<Rightarrow> ('d, 'f) RobotStatePublisher
     \<Rightarrow> 'f TransformStamped list
     \<Rightarrow> ('d, 'f) RobotStatePublisher \<times> 'f TransformStamped list" where
  "publishTransforms_loop clock [] time st tf_transforms = (st, tf_transforms)"
| "publishTransforms_loop clock ((first, second) # rest) time st tf_transforms =
     (case map_find (segments st) first of
        Some seg \<Rightarrow>
          publishTransforms_loop clock rest time st
            (tf_transforms @
              [\<lparr>stamp = time, frame_id = stripSlash (root seg),
                child_frame_id = stripSlash (tip seg),
                transform = pose (segment seg) second\<rparr>])
      | None \<Rightarrow>
          publishTransforms_loop clock rest time (ROS_WARN_THROTTLE clock 10 first st)
            tf_transforms)"

text \<open>
  \<^verbatim>\<open>publishTransforms\<close>: \<open>owns_lock\<close> is the outcome of the attempt to take
  \<^verbatim>\<open>m_swapMutex\<close>. The vector goes to the dynamic broadcaster in one call.
\<close>

definition publishTransforms ::
  "(nat \<Rightarrow> Time) \<Rightarrow> bool \<Rightarrow> (string, 'd) stdmap \<Rightarrow> Time \<Rightarrow> ('d, 'f) RobotStatePublisher
     \<Rightarrow> ('d, 'f) RobotStatePublisher" where
  "publishTransforms clock owns_lock joint_positions time st =
     (if \<not> owns_lock then st
      else
        let (st', tf_transforms) = publishTransforms_loop clock joint_positions time st []
        in st'\<lparr>tf_broadcaster := tf_broadcaster st' @ [tf_transforms]\<rparr>)"

text \<open>
  The loop of \<^verbatim>\<open>publishFixedTransforms\<close> over the fixed table; \<open>n\<close> counts the clock
  reads, one for each entry.
\<close>

fun publishFixedTransforms_loop ::
  "(nat \<Rightarrow> Time) \<Rightarrow> bool \<Rightarrow> (string, ('d::zero, 'f) SegmentPair) stdmap \<Rightarrow> nat
     \<Rightarrow> 'f TransformStamped list \<Rightarrow> nat \<times> 'f TransformStamped list" where
  "publishFixedTransforms_loop clock use_tf_static [] n tf_transforms = (n, tf_transforms)"
| "publishFixedTransforms_loop clock use_tf_static ((first, second) # rest) n tf_transforms =
     publishFixedTransforms_loop clock use_tf_static rest (Suc n)
       (tf_transforms @
         [\<lparr>stamp = (if \<not> use_tf_static then clock n + Duration_half_second else clock n),
           frame_id = stripSlash (root second),
           child_frame_id = stripSlash (tip second),
           transform = pose (segment second) 0\<rparr>])"

text \<open>
  \<^verbatim>\<open>publishFixedTransforms\<close>: \<open>owns_lock\<close> is the outcome of the attempt to take
  \<^verbatim>\<open>m_swapMutex\<close>. The vector goes to the static broadcaster when \<open>use_tf_static\<close>
  holds and to the dynamic one otherwise.
\<close>

definition publishFixedTransforms ::
  "(nat \<Rightarrow> Time) \<Rightarrow> bool \<Rightarrow> bool \<Rightarrow> ('d::zero, 'f) RobotStatePublisher
     \<Rightarrow> ('d, 'f) RobotStatePublisher" where
  "publishFixedTransforms clock owns_lock use_tf_static st =
     (if \<not> owns_lock then st
      else
        let (n, tf_transforms) =
              publishFixedTransforms_loop clock use_tf_static (segments_fixed st)
                (clock_reads st) []
        in if use_tf_static
           then st\<lparr>clock_reads := n,
                   static_tf_broadcaster := static_tf_broadcaster st @ [tf_transforms]\<rparr>
           else st\<lparr>clock_reads := n,
                   tf_broadcaster := tf_broadcaster st @ [tf_transforms]\<rparr>)"

text \<open>
  Modelled from the spec: \<^verbatim>\<open>setRobotDescription\<close> is declared outside the source file.
  The spec gives the republish step no effect besides emitting the fixed transforms and
  clearing the flag, so the function leaves the state of the model as it is.
\<close>

definition setRobotDescription ::
  "('d, 'f) RobotStatePublisher \<Rightarrow> ('d, 'f) RobotStatePublisher" where
  "setRobotDescription st = st"

text \<open>
  \<^verbatim>\<open>setRobotDescriptionIfChanged\<close>: \<open>owns_lock\<close> is the outcome of the lock attempt
  inside \<^verbatim>\<open>publishFixedTransforms\<close>.
\<close>

definition setRobotDescriptionIfChanged ::
  "(nat \<Rightarrow> Time) \<Rightarrow> bool \<Rightarrow> ('d::zero, 'f) RobotStatePublisher
     \<Rightarrow> ('d, 'f) RobotStatePublisher" where
  "setRobotDescriptionIfChanged clock owns_lock st =
     (if urdf_changed st
      then publishFixedTransforms clock owns_lock True
             (setRobotDescription (st\<lparr>urdf_changed := False\<rparr>))
      else st)"

text \<open>
  The constructor: \<^verbatim>\<open>initialized_\<close> is false, \<^verbatim>\<open>model_\<close> is a copy of the model, the
  tables are empty, nothing has been sent or printed, and the mimic map is built from
  the model. The initialiser list does not mention \<^verbatim>\<open>urdf_changed_\<close> nor the state
  of the base class: they are the arguments \<open>changed\<close>, \<open>t\<close> and \<open>u\<close>.
\<close>

definition RobotStatePublisher_ctor ::
  "'d Model \<Rightarrow> bool \<Rightarrow> ('d, 'f) TreeElement \<Rightarrow> 'd Model option
     \<Rightarrow> ('d, 'f) RobotStatePublisher" where
  "RobotStatePublisher_ctor model changed t u =
     setJointMimicMap model
       \<lparr>initialized = False, model_urdf = model, mimic_map = [], segments = [],
        segments_fixed = [], urdf_changed = changed, tree = t, urdf_ptr = u,
        tf_broadcaster = [], static_tf_broadcaster = [], clock_reads = 0,
        throttle_last_hit = 0, rosout = []\<rparr>"

section \<open>Notions used in the statements\<close>

text \<open>
  The parent-to-child edges of a tree, in the order in which \<^verbatim>\<open>addChildren\<close> visits
  them: the name of the parent segment and the child segment.
\<close>

fun edges :: "('d, 'f) TreeElement \<Rightarrow> (string \<times> ('d, 'f) Segment) list"
and edges_loop :: "string \<Rightarrow> ('d, 'f) TreeElement list \<Rightarrow> (string \<times> ('d, 'f) Segment) list"
where
  "edges (TreeElement seg children) = edges_loop (getName seg) children"
| "edges_loop root_name [] = []"
| "edges_loop root_name (c # cs) =
     (root_name, GetTreeElementSegment c) # edges c @ edges_loop root_name cs"

text \<open>The name and the kinematic type of the joint of an edge.\<close>

definition edge_joint :: "string \<times> ('d, 'f) Segment \<Rightarrow> string" where
  "edge_joint e = jntName (getJoint_of (snd e))"

definition edge_type :: "string \<times> ('d, 'f) Segment \<Rightarrow> kdl_joint_type" where
  "edge_type e = jntType (getJoint_of (snd e))"

text \<open>The segment pair that \<^verbatim>\<open>addChildren\<close> builds for an edge.\<close>

definition edge_pair :: "string \<times> ('d, 'f) Segment \<Rightarrow> ('d, 'f) SegmentPair" where
  "edge_pair e = \<lparr>segment = snd e, root = fst e, tip = getName (snd e)\<rparr>"

text \<open>The body model classifies a joint name as floating.\<close>

definition floating_in_model :: "'d Model \<Rightarrow> string \<Rightarrow> bool" where
  "floating_in_model model name =
     (case getJoint model name of Some j \<Rightarrow> type j = FLOATING | None \<Rightarrow> False)"

text \<open>
  The step of \<^verbatim>\<open>addChildren\<close> for one edge, written with the notions above. The lemma
  \<open>addChildren_fold\<close> below shows that \<^verbatim>\<open>addChildren\<close> takes this step for the edges of
  the tree in turn.
\<close>

definition add_edge ::
  "string \<times> ('d, 'f) Segment \<Rightarrow> ('d, 'f) RobotStatePublisher \<Rightarrow> ('d, 'f) RobotStatePublisher"
where
  "add_edge e st =
     (if edge_type e = JNone then
        (if floating_in_model (model_urdf st) (edge_joint e) then st
         else st\<lparr>segments_fixed := map_insert (edge_joint e, edge_pair e) (segments_fixed st)\<rparr>)
      else st\<lparr>segments := map_insert (edge_joint e, edge_pair e) (segments st)\<rparr>)"

text \<open>The keys of a map.\<close>

definition keys :: "('k, 'v) stdmap \<Rightarrow> 'k set" where
  "keys m = fst ` set m"

text \<open>
  Warnings that are at least \<open>period\<close> seconds apart: each one is printed \<open>period\<close>
  seconds or more after every earlier one.
\<close>

definition spaced :: "int \<Rightarrow> (Time \<times> string) list \<Rightarrow> bool" where
  "spaced period warnings =
     sorted_wrt (\<lambda>a b. fst a + period * 1000000000 \<le> fst b) warnings"

text \<open>
  The invariant of the throttle: the warnings printed so far are spaced, and none is
  later than the recorded time of the last one.
\<close>

definition throttle_inv :: "int \<Rightarrow> ('d, 'f) RobotStatePublisher \<Rightarrow> bool" where
  "throttle_inv period st =
     (spaced period (rosout st) \<and> list_all (\<lambda>a. fst a \<le> throttle_last_hit st) (rosout st))"

text \<open>The frame names and the transform of a message, without its time stamp.\<close>

definition unstamped :: "'f TransformStamped \<Rightarrow> string \<times> string \<times> 'f" where
  "unstamped t = (frame_id t, child_frame_id t, transform t)"

section \<open>Small robots for the examples\<close>

text \<open>
  A body model with a revolute joint \<open>A\<close>, a joint \<open>B\<close> that mimics \<open>A\<close> with
  multiplier 2 and offset 0.5, a fixed joint \<open>cam\<close> and a floating joint \<open>float\<close>.
\<close>

definition mimic_B_of_A :: "real JointMimic" where
  "mimic_B_of_A = \<lparr>offset = 1 / 2, multiplier = 2, joint_name = ''A''\<rparr>"

definition example_model :: "real Model" where
  "example_model =
     \<lparr>joints =
        [(''A'', \<lparr>type = REVOLUTE, mimic = None\<rparr>),
         (''B'', \<lparr>type = PRISMATIC, mimic = Some mimic_B_of_A\<rparr>),
         (''cam'', \<lparr>type = FIXED, mimic = None\<rparr>),
         (''float'', \<lparr>type = FLOATING, mimic = None\<rparr>)]\<rparr>"

text \<open>
  Its tree: the arm turns on \<open>A\<close> and carries a finger that slides on \<open>B\<close>; the
  camera and the inertial unit hang on joints of the kinematic type none. A rigid
  transform is represented by a number.
\<close>

definition seg_base :: "(real, real) Segment" where
  "seg_base = \<lparr>getName = ''/base_link'',
               getJoint_of = \<lparr>jntName = ''NoName'', jntType = JNone\<rparr>, pose = (\<lambda>q. 0)\<rparr>"

definition seg_arm :: "(real, real) Segment" where
  "seg_arm = \<lparr>getName = ''/arm'',
              getJoint_of = \<lparr>jntName = ''A'', jntType = RotZ\<rparr>, pose = (\<lambda>q. q)\<rparr>"

definition seg_finger :: "(real, real) Segment" where
  "seg_finger = \<lparr>getName = ''finger'',
                 getJoint_of = \<lparr>jntName = ''B'', jntType = TransX\<rparr>, pose = (\<lambda>q. q + 1)\<rparr>"

definition seg_camera :: "(real, real) Segment" where
  "seg_camera = \<lparr>getName = ''camera'',
                 getJoint_of = \<lparr>jntName = ''cam'', jntType = JNone\<rparr>, pose = (\<lambda>q. 5)\<rparr>"

definition seg_imu :: "(real, real) Segment" where
  "seg_imu = \<lparr>getName = ''imu'',
              getJoint_of = \<lparr>jntName = ''float'', jntType = JNone\<rparr>, pose = (\<lambda>q. 7)\<rparr>"

definition example_tree :: "(real, real) TreeElement" where
  "example_tree =
     TreeElement seg_base
       [TreeElement seg_arm [TreeElement seg_finger []],
        TreeElement seg_camera [],
        TreeElement seg_imu []]"

text \<open>The publisher constructed for this robot and initialised.\<close>

definition example_publisher :: "(real, real) RobotStatePublisher" where
  "example_publisher =
     snd (init (Some example_tree)
            (RobotStatePublisher_ctor example_model False example_tree (Some example_model)))"

text \<open>A model with a chain: \<open>B\<close> mimics \<open>A\<close> and \<open>C\<close> mimics \<open>B\<close>.\<close>

definition chain_model :: "real Model" where
  "chain_model =
     \<lparr>joints =
        [(''B'', \<lparr>type = REVOLUTE, mimic = Some mimic_B_of_A\<rparr>),
         (''C'', \<lparr>type = REVOLUTE,
                  mimic = Some \<lparr>offset = 0, multiplier = 1, joint_name = ''B''\<rparr>\<rparr>)]\<rparr>"

text \<open>A model whose joint \<open>A\<close> names itself as the joint it mimics.\<close>

definition self_model :: "real Model" where
  "self_model =
     \<lparr>joints =
        [(''A'', \<lparr>type = REVOLUTE,
                  mimic = Some \<lparr>offset = 0, multiplier = 1, joint_name = ''A''\<rparr>\<rparr>)]\<rparr>"

text \<open>
  A tree with two segments whose joints have the same name \<open>j\<close>, one of the kinematic
  type none and one rotating.
\<close>

definition twin_tree :: "(real, real) TreeElement" where
  "twin_tree =
     TreeElement seg_base
       [TreeElement \<lparr>getName = ''a'',
                     getJoint_of = \<lparr>jntName = ''j'', jntType = JNone\<rparr>, pose = (\<lambda>q. 1)\<rparr> [],
        TreeElement \<lparr>getName = ''b'',
                     getJoint_of = \<lparr>jntName = ''j'', jntType = RotZ\<rparr>, pose = (\<lambda>q. q)\<rparr> []]"

text \<open>
  A tree in which the joint \<open>float\<close>, floating in the example body model, rotates.
\<close>

definition turning_tree :: "(real, real) TreeElement" where
  "turning_tree =
     TreeElement seg_base
       [TreeElement \<lparr>getName = ''imu'',
                     getJoint_of = \<lparr>jntName = ''float'', jntType = RotZ\<rparr>, pose = (\<lambda>q. q)\<rparr> []]"

section \<open>Facts about the containers\<close>

lemma keys_map_insert: "keys (map_insert (k, v) m) = insert k (keys m)"
  unfolding keys_def by (induction m) (force split: if_splits)+

lemma stdmap_inv_Nil: "stdmap_inv []"
  by (simp add: stdmap_inv_def)

lemma stdmap_inv_Cons:
  "stdmap_inv ((k, v) # m) \<longleftrightarrow> (\<forall>k' \<in> keys m. k < k') \<and> stdmap_inv m"
  by (auto simp: stdmap_inv_def keys_def)

lemma stdmap_inv_map_insert: "stdmap_inv m \<Longrightarrow> stdmap_inv (map_insert (k, v) m)"
proof (induction m)
  case Nil
  show ?case by (simp add: stdmap_inv_def)
next
  case (Cons a m)
  obtain k' v' where a: "a = (k', v')" by (cases a)
  from Cons.prems have above: "\<forall>x \<in> keys m. k' < x" and inv: "stdmap_inv m"
    by (simp_all add: a stdmap_inv_Cons)
  show ?case
  proof (cases "k < k'")
    case True
    with above have "\<forall>x \<in> keys ((k', v') # m). k < x"
      by (auto simp: keys_def)
    with Cons.prems show ?thesis
      using True by (simp add: a stdmap_inv_Cons [of k v])
  next
    case False
    show ?thesis
    proof (cases "k = k'")
      case True
      with Cons.prems show ?thesis by (simp add: a)
    next
      case neq: False
      with False have "k' < k" by simp
      with above have "\<forall>x \<in> keys (map_insert (k, v) m). k' < x"
        by (simp add: keys_map_insert)
      with Cons.IH [OF inv] show ?thesis
        using False neq by (simp add: a stdmap_inv_Cons)
    qed
  qed
qed

lemma map_of_below_None:
  "\<forall>x \<in> set m. a < fst x \<Longrightarrow> k \<le> a \<Longrightarrow> map_of m (k::'k::linorder) = None"
  by (induction m) auto

lemma map_find_map_insert:
  "stdmap_inv m \<Longrightarrow>
   map_find (map_insert (k, v) m) k' =
     (if k' = k \<and> map_find m k = None then Some v else map_find m k')"
  unfolding map_find_def
  by (induction m) (auto simp: stdmap_inv_Cons keys_def map_of_below_None)

lemma map_find_None_iff: "map_find m k = None \<longleftrightarrow> k \<notin> keys m"
  by (simp add: map_find_def keys_def map_of_eq_None_iff)

lemma stdmap_inv_distinct: "stdmap_inv m \<Longrightarrow> distinct (map fst m)"
  unfolding stdmap_inv_def by (simp add: strict_sorted_iff)

lemma map_find_mem: "stdmap_inv m \<Longrightarrow> (k, v) \<in> set m \<Longrightarrow> map_find m k = Some v"
  by (simp add: map_find_def stdmap_inv_distinct)

lemma stdmap_inv_unique:
  assumes "stdmap_inv m" and "(k, v) \<in> set m" and "(k, v') \<in> set m"
  shows "v = v'"
proof -
  have "map_find m k = Some v"
    using assms(1,2) by (rule map_find_mem)
  moreover have "map_find m k = Some v'"
    using assms(1,3) by (rule map_find_mem)
  ultimately show ?thesis by simp
qed

section \<open>The example robot, evaluated\<close>

lemmas example_defs = example_publisher_def init_def RobotStatePublisher_ctor_def Let_def
  setJointMimicMap_def example_tree_def example_model_def getJoint_def map_find_def
  seg_base_def seg_arm_def seg_finger_def seg_camera_def seg_imu_def

lemma example_publisher_eq:
  "example_publisher =
     \<lparr>initialized = True, model_urdf = example_model,
      mimic_map = [(''B'', mimic_B_of_A)],
      segments =
        [(''A'', \<lparr>segment = seg_arm, root = ''/base_link'', tip = ''/arm''\<rparr>),
         (''B'', \<lparr>segment = seg_finger, root = ''/arm'', tip = ''finger''\<rparr>)],
      segments_fixed =
        [(''cam'', \<lparr>segment = seg_camera, root = ''/base_link'', tip = ''camera''\<rparr>)],
      urdf_changed = False, tree = example_tree, urdf_ptr = Some example_model,
      tf_broadcaster = [], static_tf_broadcaster = [], clock_reads = 0,
      throttle_last_hit = 0, rosout = []\<rparr>"
  by (simp add: example_defs)

section \<open>Expanding a batch with the mimic joints\<close>

lemma mimic_loop_keeps:
  "stdmap_inv jp \<Longrightarrow> map_find jp k = Some v \<Longrightarrow>
   map_find (getJointMimicPositions_loop mm jp) k = Some v"
proof (induction mm arbitrary: jp)
  case Nil
  then show ?case by simp
next
  case (Cons a mm)
  obtain n e where a: "a = (n, e)" by (cases a)
  let ?jp' = "case map_find jp (joint_name e) of
                Some q \<Rightarrow> map_insert (n, q * multiplier e + offset e) jp
              | None \<Rightarrow> jp"
  have "stdmap_inv ?jp'"
    using Cons.prems(1) by (simp add: stdmap_inv_map_insert split: option.splits)
  moreover have "map_find ?jp' k = Some v"
    using Cons.prems by (auto simp: map_find_map_insert split: option.splits)
  ultimately have "map_find (getJointMimicPositions_loop mm ?jp') k = Some v"
    by (rule Cons.IH)
  then show ?case by (simp add: a)
qed

lemma mimic_loop_adds:
  "stdmap_inv jp \<Longrightarrow> stdmap_inv mm \<Longrightarrow> (D, e) \<in> set mm \<Longrightarrow>
   map_find jp (joint_name e) = Some p \<Longrightarrow> map_find jp D = None \<Longrightarrow>
   map_find (getJointMimicPositions_loop mm jp) D = Some (p * multiplier e + offset e)"
proof (induction mm arbitrary: jp)
  case Nil
  then show ?case by simp
next
  case (Cons a mm)
  obtain k e' where a: "a = (k, e')" by (cases a)
  from Cons.prems(2) have inv: "stdmap_inv mm" and fresh: "k \<notin> keys mm"
    by (auto simp: a stdmap_inv_Cons)
  let ?jp' = "case map_find jp (joint_name e') of
                Some q \<Rightarrow> map_insert (k, q * multiplier e' + offset e') jp
              | None \<Rightarrow> jp"
  have inv': "stdmap_inv ?jp'"
    using Cons.prems(1) by (simp add: stdmap_inv_map_insert split: option.splits)
  show ?case
  proof (cases "(D, e) = (k, e')")
    case True
    with Cons.prems have "map_find ?jp' D = Some (p * multiplier e + offset e)"
      by (simp add: map_find_map_insert)
    from mimic_loop_keeps [OF inv' this] show ?thesis
      by (simp add: a)
  next
    case False
    with Cons.prems(3) have mem: "(D, e) \<in> set mm" by (auto simp: a)
    then have "D \<in> keys mm" by (force simp: keys_def)
    with fresh have neq: "D \<noteq> k" by blast
    have src: "map_find ?jp' (joint_name e) = Some p"
      using Cons.prems(1,4) by (auto simp: map_find_map_insert split: option.splits)
    have dst: "map_find ?jp' D = None"
      using Cons.prems(1,5) neq by (simp add: map_find_map_insert split: option.splits)
    from Cons.IH [OF inv' inv mem src dst] show ?thesis
      by (simp add: a)
  qed
qed

lemma mimic_loop_absent:
  "S \<notin> keys jp \<Longrightarrow> S \<notin> keys mm \<Longrightarrow> D \<notin> keys jp \<Longrightarrow>
   \<forall>e'. (D, e') \<in> set mm \<longrightarrow> joint_name e' = S \<Longrightarrow>
   D \<notin> keys (getJointMimicPositions_loop mm jp)"
proof (induction mm arbitrary: jp)
  case Nil
  then show ?case by simp
next
  case (Cons a mm)
  obtain k e' where a: "a = (k, e')" by (cases a)
  let ?jp' = "case map_find jp (joint_name e') of
                Some q \<Rightarrow> map_insert (k, q * multiplier e' + offset e') jp
              | None \<Rightarrow> jp"
  from Cons.prems(2) have kS: "k \<noteq> S" and S_mm: "S \<notin> keys mm"
    by (auto simp: a keys_def)
  have S': "S \<notin> keys ?jp'"
  proof (cases "map_find jp (joint_name e')")
    case None
    then show ?thesis using Cons.prems(1) by simp
  next
    case (Some q)
    then show ?thesis using Cons.prems(1) kS by (simp add: keys_map_insert)
  qed
  have D': "D \<notin> keys ?jp'"
  proof (cases "k = D")
    case True
    have "(D, e') \<in> set (a # mm)" by (simp add: a True)
    with Cons.prems(4) have "joint_name e' = S" by blast
    with Cons.prems(1) have none: "map_find jp (joint_name e') = None"
      by (simp add: map_find_None_iff)
    show ?thesis
      unfolding none using Cons.prems(3) by simp
  next
    case False
    show ?thesis
    proof (cases "map_find jp (joint_name e')")
      case None
      then show ?thesis using Cons.prems(3) by simp
    next
      case (Some q)
      then show ?thesis using Cons.prems(3) False by (simp add: keys_map_insert)
    qed
  qed
  from Cons.prems(4) have "\<forall>e'. (D, e') \<in> set mm \<longrightarrow> joint_name e' = S"
    by auto
  from Cons.IH [OF S' S_mm D' this] show ?case
    by (simp add: a)
qed

section \<open>Building the mimic map\<close>

lemma setJointMimicMap_loop_find:
  "stdmap_inv mm \<Longrightarrow> distinct (map fst js) \<Longrightarrow> keys js \<inter> keys mm = {} \<Longrightarrow>
   map_find (setJointMimicMap_loop js mm) D =
     (case map_find mm D of
        Some e \<Rightarrow> Some e
      | None \<Rightarrow> (case map_find js D of Some j \<Rightarrow> mimic j | None \<Rightarrow> None))"
proof (induction js arbitrary: mm)
  case Nil
  then show ?case by (simp add: map_find_def split: option.splits)
next
  case (Cons a js)
  obtain n j where a: "a = (n, j)" by (cases a)
  let ?mm' = "case mimic j of Some m \<Rightarrow> map_insert (n, m) mm | None \<Rightarrow> mm"
  have inv': "stdmap_inv ?mm'"
    using Cons.prems(1) by (simp add: stdmap_inv_map_insert split: option.splits)
  have dist: "distinct (map fst js)" and fresh: "n \<notin> keys js"
    using Cons.prems(2) by (simp_all add: a keys_def)
  have n_mm: "n \<notin> keys mm" and disj: "keys js \<inter> keys mm = {}"
    using Cons.prems(3) by (auto simp: a keys_def)
  have disj': "keys js \<inter> keys ?mm' = {}"
    using disj fresh by (auto simp: keys_map_insert split: option.splits)
  have find_n: "map_find mm n = None" and find_js: "map_find js n = None"
    using n_mm fresh by (simp_all add: map_find_None_iff)
  have step: "map_find ?mm' D =
      (if D = n then mimic j else map_find mm D)"
    using Cons.prems(1) find_n by (auto simp: map_find_map_insert split: option.splits)
  have "map_find (setJointMimicMap_loop (a # js) mm) D =
        map_find (setJointMimicMap_loop js ?mm') D"
    by (simp add: a)
  also have "\<dots> = (case map_find ?mm' D of
        Some e \<Rightarrow> Some e
      | None \<Rightarrow> (case map_find js D of Some j \<Rightarrow> mimic j | None \<Rightarrow> None))"
    by (rule Cons.IH [OF inv' dist disj'])
  also have "\<dots> = (case map_find mm D of
        Some e \<Rightarrow> Some e
      | None \<Rightarrow> (case map_find (a # js) D of Some j \<Rightarrow> mimic j | None \<Rightarrow> None))"
    unfolding step using find_n find_js
    by (auto simp: a map_find_def split: option.splits)
  finally show ?case .
qed

lemma setJointMimicMap_find:
  assumes "stdmap_inv (joints model)"
  shows "map_find (mimic_map (setJointMimicMap model st)) D =
     (case getJoint model D of Some j \<Rightarrow> mimic j | None \<Rightarrow> None)"
  using setJointMimicMap_loop_find [of "[]" "joints model" D] assms
  by (simp add: setJointMimicMap_def getJoint_def stdmap_inv_Nil stdmap_inv_distinct keys_def
      map_find_def)

text \<open>
  Claim C9, as amended. The mimic map built from a body model holds under a joint name
  exactly the mimic relation that the model's joint of that name declares; nothing is
  checked. So an entry names its own key as its source exactly when the joint of the
  model names itself.
\<close>

theorem mimic_map_copies_the_model:
  assumes "stdmap_inv (joints model)"
  shows "map_find (mimic_map (setJointMimicMap model st)) D =
           (case getJoint model D of Some j \<Rightarrow> mimic j | None \<Rightarrow> None) \<and>
         ((\<exists>e. map_find (mimic_map (setJointMimicMap model st)) D = Some e \<and> joint_name e = D)
            \<longleftrightarrow>
          (\<exists>j e. getJoint model D = Some j \<and> mimic j = Some e \<and> joint_name e = D))"
proof -
  have eq: "map_find (mimic_map (setJointMimicMap model st)) D =
           (case getJoint model D of Some j \<Rightarrow> mimic j | None \<Rightarrow> None)"
    using assms by (rule setJointMimicMap_find)
  show ?thesis
    unfolding eq by (auto split: option.splits)
qed

theorem mimic_map_copies_the_model_witness:
  "stdmap_inv (joints example_model) \<and>
   map_find (mimic_map (setJointMimicMap example_model example_publisher)) ''B'' =
     Some mimic_B_of_A \<and>
   joint_name mimic_B_of_A \<noteq> ''B''"
proof -
  have h: "stdmap_inv (joints example_model)"
    by (simp add: example_model_def stdmap_inv_def)
  from mimic_map_copies_the_model [OF h, of example_publisher "''B''"] h
  show ?thesis
    by (simp add: example_model_def getJoint_def map_find_def mimic_B_of_A_def)
qed

text \<open>
  Claim C9 as stated fails on a model whose joint \<open>A\<close> declares \<open>A\<close> as the joint it
  mimics: the entry is copied into the map.
\<close>

theorem mimic_map_self_reference_counterexample:
  "stdmap_inv (joints self_model) \<and>
   map_find (mimic_map (setJointMimicMap self_model example_publisher)) ''A'' =
     Some \<lparr>offset = 0, multiplier = 1, joint_name = ''A''\<rparr> \<and>
   joint_name \<lparr>offset = 0::real, multiplier = 1, joint_name = ''A''\<rparr> = ''A''"
  by (simp add: self_model_def stdmap_inv_def setJointMimicMap_def map_find_def)

section \<open>The claims on the mimic expansion\<close>

text \<open>
  Claim C10. A position that the batch already holds under a joint name is still the
  position under that name after the mimic expansion, whatever the mimic map says: for
  a dependent joint whose source is in the batch too, the value derived from the
  source does not replace the one supplied.
\<close>

theorem mimic_keeps_supplied_position:
  assumes "stdmap_inv joint_positions" and "map_find joint_positions D = Some p"
  shows "map_find (snd (getJointMimicPositions owns_lock st joint_positions)) D = Some p"
  using assms by (simp add: getJointMimicPositions_def mimic_loop_keeps)

theorem mimic_keeps_supplied_position_witness:
  "stdmap_inv [(''A'', 1::real), (''B'', 7)] \<and>
   map_find [(''A'', 1::real), (''B'', 7)] ''B'' = Some 7 \<and>
   map_find (mimic_map example_publisher) ''B'' = Some mimic_B_of_A \<and>
   map_find [(''A'', 1::real), (''B'', 7)] (joint_name mimic_B_of_A) = Some 1 \<and>
   (1::real) * multiplier mimic_B_of_A + offset mimic_B_of_A = 5 / 2 \<and>
   map_find (snd (getJointMimicPositions True example_publisher [(''A'', 1), (''B'', 7)])) ''B''
     = Some 7"
proof -
  have h1: "stdmap_inv [(''A'', 1::real), (''B'', 7)]"
    by (simp add: stdmap_inv_def)
  have h2: "map_find [(''A'', 1::real), (''B'', 7)] ''B'' = Some 7"
    by (simp add: map_find_def)
  from mimic_keeps_supplied_position [OF h1 h2, of True example_publisher] h1 h2
  show ?thesis
    by (simp add: example_publisher_eq mimic_B_of_A_def map_find_def)
qed

text \<open>
  Claim C3, as amended. With the lock on the mimic map taken, the expansion returns
  true. For an entry of the mimic map (dependent \<open>D\<close>, source, multiplier, offset) and
  a batch with no position for \<open>D\<close>: if the batch holds a position \<open>p\<close> for the
  source, the result holds \<open>p * multiplier + offset\<close> under \<open>D\<close>; if the batch holds
  none for the source and the source is not itself a dependent joint of the map, the
  result holds nothing under \<open>D\<close>. The batch \<open>{A: 1}\<close> with the entry (\<open>B\<close>, \<open>A\<close>, 2,
  0.5) gives \<open>{A: 1, B: 2.5}\<close>.
\<close>

theorem mimic_expansion:
  assumes "stdmap_inv (mimic_map st)" and "stdmap_inv joint_positions"
    and "(D, e) \<in> set (mimic_map st)" and "map_find joint_positions D = None"
  shows "fst (getJointMimicPositions True st joint_positions) = True \<and>
    (\<forall>p. map_find joint_positions (joint_name e) = Some p \<longrightarrow>
       map_find (snd (getJointMimicPositions True st joint_positions)) D =
         Some (p * multiplier e + offset e)) \<and>
    (map_find joint_positions (joint_name e) = None \<and> joint_name e \<notin> keys (mimic_map st) \<longrightarrow>
       map_find (snd (getJointMimicPositions True st joint_positions)) D = None) \<and>
    snd (getJointMimicPositions True example_publisher [(''A'', 1)]) =
      [(''A'', 1), (''B'', 5 / 2)]"
proof -
  have 1: "fst (getJointMimicPositions True st joint_positions) = True"
    by (simp add: getJointMimicPositions_def)
  have 2: "map_find (snd (getJointMimicPositions True st joint_positions)) D =
         Some (p * multiplier e + offset e)"
    if "map_find joint_positions (joint_name e) = Some p" for p
    using assms that by (simp add: getJointMimicPositions_def mimic_loop_adds)
  have 3: "map_find (snd (getJointMimicPositions True st joint_positions)) D = None"
    if src: "map_find joint_positions (joint_name e) = None"
      and nodep: "joint_name e \<notin> keys (mimic_map st)"
  proof -
    have uniq: "\<forall>e'. (D, e') \<in> set (mimic_map st) \<longrightarrow> joint_name e' = joint_name e"
    proof (intro allI impI)
      fix e' assume "(D, e') \<in> set (mimic_map st)"
      with assms(1) have "e' = e" using assms(3) by (rule stdmap_inv_unique)
      then show "joint_name e' = joint_name e" by simp
    qed
    have a: "joint_name e \<notin> keys joint_positions"
      using src by (simp add: map_find_None_iff)
    have b: "D \<notin> keys joint_positions"
      using assms(4) by (simp add: map_find_None_iff)
    have "D \<notin> keys (getJointMimicPositions_loop (mimic_map st) joint_positions)"
      by (rule mimic_loop_absent [OF a nodep b uniq])
    then show ?thesis
      by (simp add: getJointMimicPositions_def map_find_None_iff)
  qed
  have 4: "snd (getJointMimicPositions True example_publisher [(''A'', 1)]) =
      [(''A'', 1), (''B'', 5 / 2)]"
    by (simp add: getJointMimicPositions_def example_publisher_eq mimic_B_of_A_def map_find_def)
  from 1 2 3 4 show ?thesis by blast
qed

theorem mimic_expansion_witness:
  "stdmap_inv (mimic_map example_publisher) \<and>
   stdmap_inv [(''A'', 1::real)] \<and>
   (''B'', mimic_B_of_A) \<in> set (mimic_map example_publisher) \<and>
   map_find [(''A'', 1::real)] ''B'' = None \<and>
   map_find [(''A'', 1::real)] (joint_name mimic_B_of_A) = Some 1 \<and>
   map_find (snd (getJointMimicPositions True example_publisher [(''A'', 1)])) ''B'' =
     Some (1 * 2 + 1 / 2) \<and>
   stdmap_inv [(''Z'', 3::real)] \<and>
   map_find [(''Z'', 3::real)] ''B'' = None \<and>
   map_find [(''Z'', 3::real)] (joint_name mimic_B_of_A) = None \<and>
   joint_name mimic_B_of_A \<notin> keys (mimic_map example_publisher) \<and>
   map_find (snd (getJointMimicPositions True example_publisher [(''Z'', 3)])) ''B'' = None"
proof -
  have h1: "stdmap_inv (mimic_map example_publisher)"
    by (simp add: example_publisher_eq stdmap_inv_def)
  have h2: "stdmap_inv [(''A'', 1::real)]" and h2': "stdmap_inv [(''Z'', 3::real)]"
    by (simp_all add: stdmap_inv_def)
  have h3: "(''B'', mimic_B_of_A) \<in> set (mimic_map example_publisher)"
    by (simp add: example_publisher_eq)
  have h4: "map_find [(''A'', 1::real)] ''B'' = None"
    and h4': "map_find [(''Z'', 3::real)] ''B'' = None"
    by (simp_all add: map_find_def)
  have src: "map_find [(''A'', 1::real)] (joint_name mimic_B_of_A) = Some 1"
    and src': "map_find [(''Z'', 3::real)] (joint_name mimic_B_of_A) = None"
    and nodep: "joint_name mimic_B_of_A \<notin> keys (mimic_map example_publisher)"
    by (simp_all add: map_find_def mimic_B_of_A_def example_publisher_eq keys_def)
  from mimic_expansion [OF h1 h2 h3 h4] src
  have r: "map_find (snd (getJointMimicPositions True example_publisher [(''A'', 1)])) ''B'' =
     Some (1 * 2 + 1 / 2)"
    by (simp add: mimic_B_of_A_def map_find_def)
  from mimic_expansion [OF h1 h2' h3 h4'] src' nodep
  have r': "map_find (snd (getJointMimicPositions True example_publisher [(''Z'', 3)])) ''B'' = None"
    by blast
  from h1 h2 h2' h3 h4 h4' src src' nodep r r' show ?thesis by blast
qed

text \<open>
  Claim C3 as stated fails twice. A batch that already holds 7 for \<open>B\<close> keeps 7,
  not 2.5. And with \<open>C\<close> mimicking \<open>B\<close> mimicking \<open>A\<close>, the batch \<open>{A: 1}\<close> has no
  position for \<open>B\<close>, the source of \<open>C\<close>, yet \<open>C\<close> is added: the loop reads the
  positions that it has extended so far.
\<close>

theorem mimic_expansion_counterexample:
  "map_find (mimic_map example_publisher) ''B'' = Some mimic_B_of_A \<and>
   map_find [(''A'', 1::real), (''B'', 7)] (joint_name mimic_B_of_A) = Some 1 \<and>
   map_find (snd (getJointMimicPositions True example_publisher [(''A'', 1), (''B'', 7)])) ''B''
     \<noteq> Some (1 * multiplier mimic_B_of_A + offset mimic_B_of_A) \<and>
   mimic_map (RobotStatePublisher_ctor chain_model False example_tree None) =
     [(''B'', mimic_B_of_A), (''C'', \<lparr>offset = 0, multiplier = 1, joint_name = ''B''\<rparr>)] \<and>
   map_find [(''A'', 1::real)] ''B'' = None \<and>
   snd (getJointMimicPositions True
          (RobotStatePublisher_ctor chain_model False example_tree None) [(''A'', 1)]) =
     [(''A'', 1), (''B'', 5 / 2), (''C'', 5 / 2)]"
  by (simp add: getJointMimicPositions_def example_publisher_eq mimic_B_of_A_def map_find_def
      RobotStatePublisher_ctor_def setJointMimicMap_def chain_model_def)

section \<open>The tree builder takes one step for each edge\<close>

lemma addChildren_fold_both:
  "addChildren t st = fold add_edge (edges t) st"
  "addChildren_loop r cs st = fold add_edge (edges_loop r cs) st"
proof (induction t st and r cs st rule: addChildren_addChildren_loop.induct)
  case (1 seg children st)
  then show ?case by simp
next
  case (2 root_name st)
  then show ?case by simp
next
  case (3 root_name c cs st)
  let ?e = "(root_name, GetTreeElementSegment c)"
  have step: "add_edge ?e st =
      (let child = GetTreeElementSegment c;
          s = \<lparr>segment = child, root = root_name, tip = getName child\<rparr>
       in (if jntType (getJoint_of child) = JNone then
               (if (case getJoint (model_urdf st) (jntName (getJoint_of child)) of
                      Some j \<Rightarrow> type j = FLOATING
                    | None \<Rightarrow> False)
                then st
                else st\<lparr>segments_fixed :=
                          map_insert (jntName (getJoint_of child), s) (segments_fixed st)\<rparr>)
             else st\<lparr>segments := map_insert (jntName (getJoint_of child), s) (segments st)\<rparr>))"
    by (simp add: add_edge_def edge_type_def edge_joint_def edge_pair_def floating_in_model_def
        Let_def)
  have "addChildren_loop root_name (c # cs) st =
        addChildren_loop root_name cs (addChildren c (add_edge ?e st))"
    unfolding step by (simp add: Let_def)
  also have "\<dots> = fold add_edge (edges_loop root_name cs) (addChildren c (add_edge ?e st))"
    using "3.IH"(2) [OF refl refl, of "add_edge ?e st"] unfolding step by (simp add: Let_def)
  also have "addChildren c (add_edge ?e st) = fold add_edge (edges c) (add_edge ?e st)"
    using "3.IH"(1) [OF refl refl, of "add_edge ?e st"] unfolding step by (simp add: Let_def)
  finally show ?case by simp
qed

lemma add_edge_model: "model_urdf (add_edge e st) = model_urdf st"
  by (simp add: add_edge_def)

lemma fold_add_edge_inv:
  "stdmap_inv (segments st) \<Longrightarrow> stdmap_inv (segments (fold add_edge es st))"
  "stdmap_inv (segments_fixed st) \<Longrightarrow> stdmap_inv (segments_fixed (fold add_edge es st))"
  by (induction es arbitrary: st) (simp_all add: add_edge_def stdmap_inv_map_insert)

lemma fold_add_edge_keys_moving:
  "keys (segments (fold add_edge es st)) =
     keys (segments st) \<union> edge_joint ` {e \<in> set es. edge_type e \<noteq> JNone}"
proof (induction es arbitrary: st)
  case Nil
  show ?case by simp
next
  case (Cons e es)
  have "keys (segments (add_edge e st)) =
      keys (segments st) \<union> (if edge_type e \<noteq> JNone then {edge_joint e} else {})"
    by (simp add: add_edge_def keys_map_insert)
  then show ?case
    by (auto simp: Cons.IH)
qed

lemma fold_add_edge_keys_fixed:
  "keys (segments_fixed (fold add_edge es st)) =
     keys (segments_fixed st) \<union>
     edge_joint ` {e \<in> set es. edge_type e = JNone \<and>
                     \<not> floating_in_model (model_urdf st) (edge_joint e)}"
proof (induction es arbitrary: st)
  case Nil
  show ?case by simp
next
  case (Cons e es)
  have "keys (segments_fixed (add_edge e st)) =
      keys (segments_fixed st) \<union>
      (if edge_type e = JNone \<and> \<not> floating_in_model (model_urdf st) (edge_joint e)
       then {edge_joint e} else {})"
    by (simp add: add_edge_def keys_map_insert)
  then show ?case
    by (auto simp: Cons.IH add_edge_model)
qed

lemma fold_add_edge_keeps_moving:
  "stdmap_inv (segments st) \<Longrightarrow> map_find (segments st) k = Some v \<Longrightarrow>
   map_find (segments (fold add_edge es st)) k = Some v"
proof (induction es arbitrary: st)
  case Nil
  then show ?case by simp
next
  case (Cons e es)
  have "stdmap_inv (segments (add_edge e st))"
    using Cons.prems(1) by (simp add: add_edge_def stdmap_inv_map_insert)
  moreover have "map_find (segments (add_edge e st)) k = Some v"
    using Cons.prems by (auto simp: add_edge_def map_find_map_insert)
  ultimately have "map_find (segments (fold add_edge es (add_edge e st))) k = Some v"
    by (rule Cons.IH)
  then show ?case by simp
qed

lemma fold_add_edge_keeps_fixed:
  "stdmap_inv (segments_fixed st) \<Longrightarrow> map_find (segments_fixed st) k = Some v \<Longrightarrow>
   map_find (segments_fixed (fold add_edge es st)) k = Some v"
proof (induction es arbitrary: st)
  case Nil
  then show ?case by simp
next
  case (Cons e es)
  have "stdmap_inv (segments_fixed (add_edge e st))"
    using Cons.prems(1) by (simp add: add_edge_def stdmap_inv_map_insert)
  moreover have "map_find (segments_fixed (add_edge e st)) k = Some v"
    using Cons.prems by (auto simp: add_edge_def map_find_map_insert)
  ultimately have "map_find (segments_fixed (fold add_edge es (add_edge e st))) k = Some v"
    by (rule Cons.IH)
  then show ?case by simp
qed

lemma fold_add_edge_pair_moving:
  assumes "stdmap_inv (segments st)" and "distinct (map edge_joint es)"
    and "e \<in> set es" and "edge_type e \<noteq> JNone" and "edge_joint e \<notin> keys (segments st)"
  shows "map_find (segments (fold add_edge es st)) (edge_joint e) = Some (edge_pair e)"
  using assms
proof (induction es arbitrary: st)
  case Nil
  then show ?case by simp
next
  case (Cons a es)
  have inv': "stdmap_inv (segments (add_edge a st))"
    using Cons.prems(1) by (simp add: add_edge_def stdmap_inv_map_insert)
  show ?case
  proof (cases "a = e")
    case True
    have "map_find (segments (add_edge e st)) (edge_joint e) = Some (edge_pair e)"
      using Cons.prems(1,4,5)
      by (simp add: add_edge_def map_find_map_insert map_find_None_iff)
    with inv' show ?thesis
      using True by (simp add: fold_add_edge_keeps_moving)
  next
    case False
    with Cons.prems(3) have mem: "e \<in> set es" by simp
    with Cons.prems(2) have neq: "edge_joint a \<noteq> edge_joint e" by force
    have absent: "edge_joint e \<notin> keys (segments (add_edge a st))"
      using Cons.prems(5) neq by (simp add: add_edge_def keys_map_insert)
    from Cons.prems(2) have "distinct (map edge_joint es)" by simp
    from Cons.IH [OF inv' this mem Cons.prems(4) absent] show ?thesis by simp
  qed
qed

lemma fold_add_edge_pair_fixed:
  assumes "stdmap_inv (segments_fixed st)" and "distinct (map edge_joint es)"
    and "e \<in> set es" and "edge_type e = JNone"
    and "\<not> floating_in_model (model_urdf st) (edge_joint e)"
    and "edge_joint e \<notin> keys (segments_fixed st)"
  shows "map_find (segments_fixed (fold add_edge es st)) (edge_joint e) = Some (edge_pair e)"
  using assms
proof (induction es arbitrary: st)
  case Nil
  then show ?case by simp
next
  case (Cons a es)
  have inv': "stdmap_inv (segments_fixed (add_edge a st))"
    using Cons.prems(1) by (simp add: add_edge_def stdmap_inv_map_insert)
  show ?case
  proof (cases "a = e")
    case True
    have "map_find (segments_fixed (add_edge e st)) (edge_joint e) = Some (edge_pair e)"
      using Cons.prems(1,4,5,6)
      by (simp add: add_edge_def map_find_map_insert map_find_None_iff)
    with inv' show ?thesis
      using True by (simp add: fold_add_edge_keeps_fixed)
  next
    case False
    with Cons.prems(3) have mem: "e \<in> set es" by simp
    with Cons.prems(2) have neq: "edge_joint a \<noteq> edge_joint e" by force
    have absent: "edge_joint e \<notin> keys (segments_fixed (add_edge a st))"
      using Cons.prems(6) neq by (simp add: add_edge_def keys_map_insert)
    have fl: "\<not> floating_in_model (model_urdf (add_edge a st)) (edge_joint e)"
      using Cons.prems(5) by (simp add: add_edge_model)
    from Cons.prems(2) have "distinct (map edge_joint es)" by simp
    from Cons.IH [OF inv' this mem Cons.prems(4) fl absent] show ?thesis by simp
  qed
qed

lemma keys_Nil: "keys [] = {}"
  by (simp add: keys_def)

lemma example_ctor_eq:
  "RobotStatePublisher_ctor example_model False t u =
     \<lparr>initialized = False, model_urdf = example_model,
      mimic_map = [(''B'', mimic_B_of_A)], segments = [], segments_fixed = [],
      urdf_changed = False, tree = t, urdf_ptr = u,
      tf_broadcaster = [], static_tf_broadcaster = [], clock_reads = 0,
      throttle_last_hit = 0, rosout = []\<rparr>"
  by (simp add: RobotStatePublisher_ctor_def setJointMimicMap_def example_model_def)

lemma example_edges:
  "edges example_tree =
     [(''/base_link'', seg_arm), (''/arm'', seg_finger),
      (''/base_link'', seg_camera), (''/base_link'', seg_imu)]"
  by (simp add: example_tree_def seg_base_def seg_arm_def)

lemma example_floating:
  "floating_in_model example_model name \<longleftrightarrow> name = ''float''"
  by (simp add: floating_in_model_def getJoint_def map_find_def example_model_def)

section \<open>The claims on the tree builder\<close>

text \<open>
  Claim C1, as amended. The tree builder runs on empty tables. The joint name of an
  edge of the kinematic type none that the body model does not classify as floating is
  a key of the fixed table, the joint name of an edge of any other kinematic type is a
  key of the moving table, every key of a table is the joint name of an edge, and the
  keys of each table are strictly increasing, so none occurs twice. Provided the joint
  names of the edges are pairwise distinct, no name is in both tables, and the tables
  hold under the joint name of an edge exactly the segment pair of that edge, in the
  table the edge belongs to, or nothing when the edge is floating.
\<close>

theorem tree_builder_membership:
  assumes "segments st = []" and "segments_fixed st = []"
  shows
    "(let st' = addChildren t st in
      (\<forall>e \<in> set (edges t).
         (edge_type e = JNone \<and> \<not> floating_in_model (model_urdf st) (edge_joint e) \<longrightarrow>
            edge_joint e \<in> keys (segments_fixed st')) \<and>
         (edge_type e \<noteq> JNone \<longrightarrow> edge_joint e \<in> keys (segments st'))) \<and>
      keys (segments st') \<union> keys (segments_fixed st') \<subseteq> edge_joint ` set (edges t) \<and>
      stdmap_inv (segments st') \<and> stdmap_inv (segments_fixed st') \<and>
      (distinct (map edge_joint (edges t)) \<longrightarrow>
         keys (segments st') \<inter> keys (segments_fixed st') = {} \<and>
         (\<forall>e \<in> set (edges t).
            map_find (segments st') (edge_joint e) =
              (if edge_type e \<noteq> JNone then Some (edge_pair e) else None) \<and>
            map_find (segments_fixed st') (edge_joint e) =
              (if edge_type e = JNone \<and> \<not> floating_in_model (model_urdf st) (edge_joint e)
               then Some (edge_pair e) else None))))"
proof -
  let ?st' = "addChildren t st"
  let ?fl = "\<lambda>e. floating_in_model (model_urdf st) (edge_joint e)"
  have km: "keys (segments ?st') = edge_joint ` {e \<in> set (edges t). edge_type e \<noteq> JNone}"
    using assms(1) by (simp add: addChildren_fold_both fold_add_edge_keys_moving keys_Nil)
  have kf: "keys (segments_fixed ?st') =
      edge_joint ` {e \<in> set (edges t). edge_type e = JNone \<and> \<not> ?fl e}"
    using assms(2) by (simp add: addChildren_fold_both fold_add_edge_keys_fixed keys_Nil)
  have 1: "\<forall>e \<in> set (edges t).
         (edge_type e = JNone \<and> \<not> ?fl e \<longrightarrow> edge_joint e \<in> keys (segments_fixed ?st')) \<and>
         (edge_type e \<noteq> JNone \<longrightarrow> edge_joint e \<in> keys (segments ?st'))"
    unfolding km kf by blast
  have 2: "keys (segments ?st') \<union> keys (segments_fixed ?st') \<subseteq> edge_joint ` set (edges t)"
    unfolding km kf by blast
  have 3: "stdmap_inv (segments ?st')" "stdmap_inv (segments_fixed ?st')"
    using assms by (simp_all add: addChildren_fold_both fold_add_edge_inv stdmap_inv_Nil)
  have 4: "keys (segments ?st') \<inter> keys (segments_fixed ?st') = {}"
    if d: "distinct (map edge_joint (edges t))"
  proof -
    have inj: "inj_on edge_joint (set (edges t))"
      using d by (simp add: distinct_map)
    show ?thesis
      unfolding km kf using inj by (auto dest: inj_onD)
  qed
  have 5: "map_find (segments ?st') (edge_joint e) =
              (if edge_type e \<noteq> JNone then Some (edge_pair e) else None) \<and>
            map_find (segments_fixed ?st') (edge_joint e) =
              (if edge_type e = JNone \<and> \<not> ?fl e then Some (edge_pair e) else None)"
    if d: "distinct (map edge_joint (edges t))" and mem: "e \<in> set (edges t)" for e
  proof -
    have inj: "inj_on edge_joint (set (edges t))"
      using d by (simp add: distinct_map)
    have m_in: "map_find (segments ?st') (edge_joint e) = Some (edge_pair e)"
      if "edge_type e \<noteq> JNone"
      unfolding addChildren_fold_both
      using d mem that assms(1)
      by (intro fold_add_edge_pair_moving) (simp_all add: stdmap_inv_Nil keys_Nil)
    have m_out: "map_find (segments ?st') (edge_joint e) = None" if "edge_type e = JNone"
      unfolding map_find_None_iff km using inj mem that by (auto dest: inj_onD)
    have f_in: "map_find (segments_fixed ?st') (edge_joint e) = Some (edge_pair e)"
      if "edge_type e = JNone" "\<not> ?fl e"
      unfolding addChildren_fold_both
      using d mem that assms(2)
      by (intro fold_add_edge_pair_fixed) (simp_all add: stdmap_inv_Nil keys_Nil)
    have f_out: "map_find (segments_fixed ?st') (edge_joint e) = None"
      if "\<not> (edge_type e = JNone \<and> \<not> ?fl e)"
      unfolding map_find_None_iff kf using inj mem that by (auto dest: inj_onD)
    from m_in m_out f_in f_out show ?thesis by auto
  qed
  from 1 2 3 4 5 show ?thesis
    unfolding Let_def by blast
qed

theorem tree_builder_membership_witness:
  "segments (RobotStatePublisher_ctor example_model False example_tree None) = [] \<and>
   segments_fixed (RobotStatePublisher_ctor example_model False example_tree None) = [] \<and>
   distinct (map edge_joint (edges example_tree)) \<and>
   (''/base_link'', seg_arm) \<in> set (edges example_tree) \<and>
   edge_type (''/base_link'', seg_arm) = RotZ \<and>
   map_find (segments (addChildren example_tree
       (RobotStatePublisher_ctor example_model False example_tree None))) ''A'' =
     Some \<lparr>segment = seg_arm, root = ''/base_link'', tip = ''/arm''\<rparr> \<and>
   map_find (segments_fixed (addChildren example_tree
       (RobotStatePublisher_ctor example_model False example_tree None))) ''A'' = None \<and>
   (''/base_link'', seg_camera) \<in> set (edges example_tree) \<and>
   edge_type (''/base_link'', seg_camera) = JNone \<and>
   floating_in_model example_model ''cam'' = False \<and>
   map_find (segments_fixed (addChildren example_tree
       (RobotStatePublisher_ctor example_model False example_tree None))) ''cam'' =
     Some \<lparr>segment = seg_camera, root = ''/base_link'', tip = ''camera''\<rparr> \<and>
   map_find (segments (addChildren example_tree
       (RobotStatePublisher_ctor example_model False example_tree None))) ''cam'' = None"
proof -
  let ?st = "RobotStatePublisher_ctor example_model False example_tree None
               :: (real, real) RobotStatePublisher"
  let ?st' = "addChildren example_tree ?st"
  have h1: "segments ?st = []" and h2: "segments_fixed ?st = []"
    and md: "model_urdf ?st = example_model"
    by (simp_all add: example_ctor_eq)
  have d: "distinct (map edge_joint (edges example_tree))"
    by (simp add: example_edges edge_joint_def seg_arm_def seg_finger_def
        seg_camera_def seg_imu_def)
  have arm: "(''/base_link'', seg_arm) \<in> set (edges example_tree)"
    "edge_type (''/base_link'', seg_arm) = RotZ"
    "edge_joint (''/base_link'', seg_arm) = ''A''"
    "edge_pair (''/base_link'', seg_arm) =
       \<lparr>segment = seg_arm, root = ''/base_link'', tip = ''/arm''\<rparr>"
    by (simp_all add: example_edges edge_type_def edge_joint_def edge_pair_def seg_arm_def)
  have cam: "(''/base_link'', seg_camera) \<in> set (edges example_tree)"
    "edge_type (''/base_link'', seg_camera) = JNone"
    "edge_joint (''/base_link'', seg_camera) = ''cam''"
    "edge_pair (''/base_link'', seg_camera) =
       \<lparr>segment = seg_camera, root = ''/base_link'', tip = ''camera''\<rparr>"
    "floating_in_model example_model ''cam'' = False"
    by (simp_all add: example_edges edge_type_def edge_joint_def edge_pair_def seg_camera_def
        example_floating)
  note inst = tree_builder_membership [OF h1 h2, of example_tree, unfolded Let_def md]
  from inst d have all: "\<forall>e \<in> set (edges example_tree).
            map_find (segments ?st') (edge_joint e) =
              (if edge_type e \<noteq> JNone then Some (edge_pair e) else None) \<and>
            map_find (segments_fixed ?st') (edge_joint e) =
              (if edge_type e = JNone \<and> \<not> floating_in_model example_model (edge_joint e)
               then Some (edge_pair e) else None)"
    by blast
  from all arm(1) have "map_find (segments ?st') (edge_joint (''/base_link'', seg_arm)) =
              (if edge_type (''/base_link'', seg_arm) \<noteq> JNone
               then Some (edge_pair (''/base_link'', seg_arm)) else None)"
    and "map_find (segments_fixed ?st') (edge_joint (''/base_link'', seg_arm)) =
              (if edge_type (''/base_link'', seg_arm) = JNone \<and>
                  \<not> floating_in_model example_model (edge_joint (''/base_link'', seg_arm))
               then Some (edge_pair (''/base_link'', seg_arm)) else None)"
    by blast+
  then have r1: "map_find (segments ?st') ''A'' =
        Some \<lparr>segment = seg_arm, root = ''/base_link'', tip = ''/arm''\<rparr>"
    and r2: "map_find (segments_fixed ?st') ''A'' = None"
    by (simp_all add: arm)
  from all cam(1) have "map_find (segments ?st') (edge_joint (''/base_link'', seg_camera)) =
              (if edge_type (''/base_link'', seg_camera) \<noteq> JNone
               then Some (edge_pair (''/base_link'', seg_camera)) else None)"
    and "map_find (segments_fixed ?st') (edge_joint (''/base_link'', seg_camera)) =
              (if edge_type (''/base_link'', seg_camera) = JNone \<and>
                  \<not> floating_in_model example_model (edge_joint (''/base_link'', seg_camera))
               then Some (edge_pair (''/base_link'', seg_camera)) else None)"
    by blast+
  then have r3: "map_find (segments ?st') ''cam'' = None"
    and r4: "map_find (segments_fixed ?st') ''cam'' =
        Some \<lparr>segment = seg_camera, root = ''/base_link'', tip = ''camera''\<rparr>"
    by (simp_all add: cam)
  from h1 h2 d arm(1,2) cam(1,2,5) r1 r2 r3 r4 show ?thesis by blast
qed

text \<open>
  Claim C1 as stated fails for a tree with two segments whose joints are both named
  \<open>j\<close>, one of the kinematic type none and one rotating: \<open>j\<close> is in both tables.
\<close>

theorem tree_builder_membership_counterexample:
  "map_find (segments (addChildren twin_tree
       (RobotStatePublisher_ctor example_model False twin_tree None))) ''j'' =
     Some \<lparr>segment = \<lparr>getName = ''b'',
                      getJoint_of = \<lparr>jntName = ''j'', jntType = RotZ\<rparr>, pose = (\<lambda>q. q)\<rparr>,
           root = ''/base_link'', tip = ''b''\<rparr> \<and>
   map_find (segments_fixed (addChildren twin_tree
       (RobotStatePublisher_ctor example_model False twin_tree None))) ''j'' =
     Some \<lparr>segment = \<lparr>getName = ''a'',
                      getJoint_of = \<lparr>jntName = ''j'', jntType = JNone\<rparr>, pose = (\<lambda>q. 1)\<rparr>,
           root = ''/base_link'', tip = ''a''\<rparr>"
  unfolding example_ctor_eq
  by (simp add: twin_tree_def seg_base_def map_find_def Let_def getJoint_def example_model_def)

text \<open>
  Claim C2, as amended. The tree builder runs on empty tables. A joint name that the
  body model classifies as floating is never a key of the fixed table; it is absent
  from the moving table exactly when every edge of the tree that carries the name has
  the kinematic type none.
\<close>

theorem floating_joints_excluded:
  assumes "segments st = []" and "segments_fixed st = []"
    and "floating_in_model (model_urdf st) name"
  shows "map_find (segments_fixed (addChildren t st)) name = None \<and>
     (map_find (segments (addChildren t st)) name = None \<longleftrightarrow>
        (\<forall>e \<in> set (edges t). edge_joint e = name \<longrightarrow> edge_type e = JNone))"
proof -
  have fixed: "name \<notin> keys (segments_fixed (addChildren t st))"
    using assms(2,3)
    by (auto simp: addChildren_fold_both fold_add_edge_keys_fixed keys_Nil)
  have moving: "name \<notin> keys (segments (addChildren t st)) \<longleftrightarrow>
        (\<forall>e \<in> set (edges t). edge_joint e = name \<longrightarrow> edge_type e = JNone)"
    using assms(1)
    by (auto simp: addChildren_fold_both fold_add_edge_keys_moving keys_Nil)
  from fixed moving show ?thesis
    by (simp add: map_find_None_iff)
qed

theorem floating_joints_excluded_witness:
  "segments (RobotStatePublisher_ctor example_model False example_tree None) = [] \<and>
   segments_fixed (RobotStatePublisher_ctor example_model False example_tree None) = [] \<and>
   floating_in_model
     (model_urdf (RobotStatePublisher_ctor example_model False example_tree None)) ''float'' \<and>
   map edge_joint (edges example_tree) = [''A'', ''B'', ''cam'', ''float''] \<and>
   edge_type (''/base_link'', seg_imu) = JNone \<and>
   map_find (segments_fixed
     (addChildren example_tree
        (RobotStatePublisher_ctor example_model False example_tree None))) ''float'' = None \<and>
   map_find (segments
     (addChildren example_tree
        (RobotStatePublisher_ctor example_model False example_tree None))) ''float'' = None"
proof -
  let ?st = "RobotStatePublisher_ctor example_model False example_tree None
               :: (real, real) RobotStatePublisher"
  have h1: "segments ?st = []" and h2: "segments_fixed ?st = []"
    and h3: "floating_in_model (model_urdf ?st) ''float''"
    by (simp_all add: example_ctor_eq example_floating)
  have names: "map edge_joint (edges example_tree) = [''A'', ''B'', ''cam'', ''float'']"
    and ty: "edge_type (''/base_link'', seg_imu) = JNone"
    by (simp_all add: example_edges edge_joint_def edge_type_def seg_arm_def seg_finger_def
        seg_camera_def seg_imu_def)
  have all_none: "\<forall>e \<in> set (edges example_tree). edge_joint e = ''float'' \<longrightarrow> edge_type e = JNone"
    by (simp add: example_edges edge_joint_def edge_type_def seg_arm_def seg_finger_def
        seg_camera_def seg_imu_def)
  from floating_joints_excluded [OF h1 h2 h3, of example_tree] all_none
  have "map_find (segments_fixed (addChildren example_tree ?st)) ''float'' = None"
    and "map_find (segments (addChildren example_tree ?st)) ''float'' = None"
    by blast+
  with h1 h2 h3 names ty show ?thesis by blast
qed

text \<open>
  Claim C2 as stated fails when a joint that the body model classifies as floating
  rotates in the tree: the test for floating joints is made for the kinematic type
  none only, and the segment goes to the moving table.
\<close>

theorem floating_joints_excluded_counterexample:
  "floating_in_model
     (model_urdf (RobotStatePublisher_ctor example_model False turning_tree None)) ''float'' \<and>
   map_find (segments
     (addChildren turning_tree
        (RobotStatePublisher_ctor example_model False turning_tree None))) ''float'' =
     Some \<lparr>segment = \<lparr>getName = ''imu'',
                      getJoint_of = \<lparr>jntName = ''float'', jntType = RotZ\<rparr>,
                      pose = (\<lambda>q. q)\<rparr>,
           root = ''/base_link'', tip = ''imu''\<rparr>"
  by (simp add: example_ctor_eq example_floating turning_tree_def seg_base_def map_find_def
      Let_def)

section \<open>Publishing the fixed transforms\<close>

lemma publishFixedTransforms_loop_eq:
  "publishFixedTransforms_loop clock b m n acc =
     (n + length m,
      acc @ map (\<lambda>(i, k, sp).
                  \<lparr>stamp = (if \<not> b then clock i + Duration_half_second else clock i),
                   frame_id = stripSlash (root sp),
                   child_frame_id = stripSlash (tip sp),
                   transform = pose (segment sp) 0\<rparr>)
                (List.enumerate n m))"
  by (induction m arbitrary: n acc) auto

lemma publishFixedTransforms_static:
  "publishFixedTransforms clock True True st =
     st\<lparr>clock_reads := clock_reads st + length (segments_fixed st),
        static_tf_broadcaster := static_tf_broadcaster st @
          [map (\<lambda>(i, k, sp).
                  \<lparr>stamp = clock i,
                   frame_id = stripSlash (root sp),
                   child_frame_id = stripSlash (tip sp),
                   transform = pose (segment sp) 0\<rparr>)
                (List.enumerate (clock_reads st) (segments_fixed st))]\<rparr>"
  by (simp add: publishFixedTransforms_def publishFixedTransforms_loop_eq)

lemma publishFixedTransforms_dynamic:
  "publishFixedTransforms clock True False st =
     st\<lparr>clock_reads := clock_reads st + length (segments_fixed st),
        tf_broadcaster := tf_broadcaster st @
          [map (\<lambda>(i, k, sp).
                  \<lparr>stamp = clock i + Duration_half_second,
                   frame_id = stripSlash (root sp),
                   child_frame_id = stripSlash (tip sp),
                   transform = pose (segment sp) 0\<rparr>)
                (List.enumerate (clock_reads st) (segments_fixed st))]\<rparr>"
  by (simp add: publishFixedTransforms_def publishFixedTransforms_loop_eq)

lemma unstamped_fixed_batch:
  "map (unstamped \<circ>
        (\<lambda>(i, k, sp).
             \<lparr>stamp = s i, frame_id = stripSlash (root sp),
              child_frame_id = stripSlash (tip sp), transform = pose (segment sp) 0\<rparr>))
        (List.enumerate n m) =
   map (\<lambda>(k, sp). (stripSlash (root sp), stripSlash (tip sp), pose (segment sp) 0)) m"
  by (induction m arbitrary: n) (auto simp: unstamped_def)

lemma stamp_fixed_batch:
  "map (stamp \<circ>
        (\<lambda>(i, k, sp).
             \<lparr>stamp = s i, frame_id = stripSlash (root sp),
              child_frame_id = stripSlash (tip sp), transform = pose (segment sp) 0\<rparr>))
        (List.enumerate n m) =
   map s [n ..< n + length m]"
  by (induction m arbitrary: n) (auto simp: upt_rec)

text \<open>
  Claim C4. A publish operation, moving or fixed, that does not get the structure lock
  returns the state it was given: nothing is handed to either broadcaster, and the
  segment tables, the mimic map and the pending-republish flag are as before.
\<close>

theorem publish_skips_without_lock:
  "publishTransforms clock False joint_positions time st = st \<and>
   publishFixedTransforms clock False use_tf_static st = st"
  by (simp add: publishTransforms_def publishFixedTransforms_def)

lemma publishFixedTransforms_missed:
  "publishFixedTransforms clock False use_tf_static st = st"
  by (simp add: publishFixedTransforms_def)

text \<open>
  Claim C6, as amended. From the same state and with the same clock readings: a call
  of \<^verbatim>\<open>publishFixedTransforms\<close> that takes the structure lock sends one batch, to the
  static broadcaster only when \<open>use_tf_static\<close> holds and to the dynamic one only
  otherwise, with one transform at position zero for every entry of the fixed table.
  The time stamps are the clock readings when \<open>use_tf_static\<close> holds and the clock
  readings plus 500000000 nanoseconds, half a second, when it does not. When both
  calls take the lock, the dynamic batch is the static batch with every stamp half a
  second later, frame names and transforms being the same. A call that misses the lock
  changes nothing.
\<close>

theorem publishFixed_dynamic_versus_static:
  "(let st_t = publishFixedTransforms clock lock_t True st;
        st_f = publishFixedTransforms clock lock_f False st;
        batch_t = last (static_tf_broadcaster st_t);
        batch_f = last (tf_broadcaster st_f);
        reads = [clock_reads st ..< clock_reads st + length (segments_fixed st)];
        fixed = map (\<lambda>(k, sp). (stripSlash (root sp), stripSlash (tip sp), pose (segment sp) 0))
                  (segments_fixed st)
    in (if lock_t
        then static_tf_broadcaster st_t = static_tf_broadcaster st @ [batch_t] \<and>
             tf_broadcaster st_t = tf_broadcaster st \<and>
             map unstamped batch_t = fixed \<and>
             map stamp batch_t = map clock reads
        else st_t = st) \<and>
       (if lock_f
        then tf_broadcaster st_f = tf_broadcaster st @ [batch_f] \<and>
             static_tf_broadcaster st_f = static_tf_broadcaster st \<and>
             map unstamped batch_f = fixed \<and>
             map stamp batch_f = map (\<lambda>n. clock n + 500000000) reads
        else st_f = st) \<and>
       (lock_t \<and> lock_f \<longrightarrow>
          batch_f = map (\<lambda>t. t\<lparr>stamp := stamp t + 500000000\<rparr>) batch_t \<and>
          map unstamped batch_f = map unstamped batch_t))"
proof -
  let ?mk = "\<lambda>s. map (\<lambda>(i, k, sp).
             \<lparr>stamp = s i, frame_id = stripSlash (root sp),
              child_frame_id = stripSlash (tip sp), transform = pose (segment sp) 0\<rparr>)
        (List.enumerate (clock_reads st) (segments_fixed st))"
  let ?st_t = "publishFixedTransforms clock True True st"
  let ?st_f = "publishFixedTransforms clock True False st"
  let ?bt = "last (static_tf_broadcaster ?st_t)"
  let ?bf = "last (tf_broadcaster ?st_f)"
  let ?reads = "[clock_reads st ..< clock_reads st + length (segments_fixed st)]"
  let ?fixed = "map (\<lambda>(k, sp). (stripSlash (root sp), stripSlash (tip sp), pose (segment sp) 0))
                  (segments_fixed st)"
  have shift: "?mk (\<lambda>i. clock i + 500000000) =
      map (\<lambda>t. t\<lparr>stamp := stamp t + 500000000\<rparr>) (?mk clock)"
    by auto
  have bt: "?bt = ?mk clock"
    by (simp add: publishFixedTransforms_static)
  have bf: "?bf = ?mk (\<lambda>i. clock i + 500000000)"
    by (simp add: publishFixedTransforms_dynamic Duration_half_second_def)
  have un: "map unstamped (?mk s) = ?fixed" for s
    by (simp add: unstamped_fixed_batch)
  have st: "map stamp (?mk s) = map s ?reads" for s
    by (simp add: stamp_fixed_batch)
  have t1: "static_tf_broadcaster ?st_t = static_tf_broadcaster st @ [?bt]"
    unfolding bt by (simp add: publishFixedTransforms_static)
  have t2: "tf_broadcaster ?st_t = tf_broadcaster st"
    by (simp add: publishFixedTransforms_static)
  have t3: "map unstamped ?bt = ?fixed"
    unfolding bt by (rule un)
  have t4: "map stamp ?bt = map clock ?reads"
    unfolding bt by (rule st)
  have f1: "tf_broadcaster ?st_f = tf_broadcaster st @ [?bf]"
    unfolding bf by (simp add: publishFixedTransforms_dynamic Duration_half_second_def)
  have f2: "static_tf_broadcaster ?st_f = static_tf_broadcaster st"
    by (simp add: publishFixedTransforms_dynamic)
  have f3: "map unstamped ?bf = ?fixed"
    unfolding bf by (rule un)
  have f4: "map stamp ?bf = map (\<lambda>n. clock n + 500000000) ?reads"
    unfolding bf by (rule st)
  have r1: "?bf = map (\<lambda>t. t\<lparr>stamp := stamp t + 500000000\<rparr>) ?bt"
    unfolding bt bf by (rule shift)
  have r2: "map unstamped ?bf = map unstamped ?bt"
    unfolding t3 f3 by (rule refl)
  have static_part:
    "if lock_t
     then static_tf_broadcaster (publishFixedTransforms clock lock_t True st) =
            static_tf_broadcaster st @
              [last (static_tf_broadcaster (publishFixedTransforms clock lock_t True st))] \<and>
          tf_broadcaster (publishFixedTransforms clock lock_t True st) = tf_broadcaster st \<and>
          map unstamped
            (last (static_tf_broadcaster (publishFixedTransforms clock lock_t True st))) =
            ?fixed \<and>
          map stamp (last (static_tf_broadcaster (publishFixedTransforms clock lock_t True st))) =
            map clock ?reads
     else publishFixedTransforms clock lock_t True st = st"
  proof (cases lock_t)
    case True
    with t1 t2 t3 t4 show ?thesis by simp
  next
    case False
    then show ?thesis by (simp add: publishFixedTransforms_missed)
  qed
  have dynamic_part:
    "if lock_f
     then tf_broadcaster (publishFixedTransforms clock lock_f False st) =
            tf_broadcaster st @
              [last (tf_broadcaster (publishFixedTransforms clock lock_f False st))] \<and>
          static_tf_broadcaster (publishFixedTransforms clock lock_f False st) =
            static_tf_broadcaster st \<and>
          map unstamped (last (tf_broadcaster (publishFixedTransforms clock lock_f False st))) =
            ?fixed \<and>
          map stamp (last (tf_broadcaster (publishFixedTransforms clock lock_f False st))) =
            map (\<lambda>n. clock n + 500000000) ?reads
     else publishFixedTransforms clock lock_f False st = st"
  proof (cases lock_f)
    case True
    with f1 f2 f3 f4 show ?thesis by simp
  next
    case False
    then show ?thesis by (simp add: publishFixedTransforms_missed)
  qed
  have both:
    "lock_t \<and> lock_f \<longrightarrow>
       last (tf_broadcaster (publishFixedTransforms clock lock_f False st)) =
         map (\<lambda>t. t\<lparr>stamp := stamp t + 500000000\<rparr>)
           (last (static_tf_broadcaster (publishFixedTransforms clock lock_t True st))) \<and>
       map unstamped (last (tf_broadcaster (publishFixedTransforms clock lock_f False st))) =
         map unstamped
           (last (static_tf_broadcaster (publishFixedTransforms clock lock_t True st)))"
    using r1 r2 by simp
  show ?thesis
    unfolding Let_def using static_part dynamic_part both by (intro conjI)
qed

lemma example_publishFixed_static:
  "publishFixedTransforms (\<lambda>n. 100 + int n) True True example_publisher =
     example_publisher
       \<lparr>clock_reads := 1,
        static_tf_broadcaster :=
          [[\<lparr>stamp = 100, frame_id = ''base_link'', child_frame_id = ''camera'',
             transform = 5\<rparr>]]\<rparr>"
  by (simp add: publishFixedTransforms_def example_publisher_eq stripSlash_def seg_camera_def)

lemma example_publishFixed_dynamic:
  "publishFixedTransforms (\<lambda>n. 100 + int n) True False example_publisher =
     example_publisher
       \<lparr>clock_reads := 1,
        tf_broadcaster :=
          [[\<lparr>stamp = 500000100, frame_id = ''base_link'', child_frame_id = ''camera'',
             transform = 5\<rparr>]]\<rparr>"
  by (simp add: publishFixedTransforms_def example_publisher_eq stripSlash_def seg_camera_def
      Duration_half_second_def)

theorem publishFixed_dynamic_versus_static_witness:
  "last (static_tf_broadcaster
     (publishFixedTransforms (\<lambda>n. 100 + int n) True True example_publisher)) =
     [\<lparr>stamp = 100, frame_id = ''base_link'', child_frame_id = ''camera'', transform = 5\<rparr>] \<and>
   last (tf_broadcaster
     (publishFixedTransforms (\<lambda>n. 100 + int n) True False example_publisher)) =
     map (\<lambda>t. t\<lparr>stamp := stamp t + 500000000\<rparr>)
       (last (static_tf_broadcaster
          (publishFixedTransforms (\<lambda>n. 100 + int n) True True example_publisher))) \<and>
   last (tf_broadcaster
     (publishFixedTransforms (\<lambda>n. 100 + int n) True False example_publisher)) =
     [\<lparr>stamp = 500000100, frame_id = ''base_link'', child_frame_id = ''camera'',
       transform = 5\<rparr>]"
proof -
  have "last (tf_broadcaster
     (publishFixedTransforms (\<lambda>n. 100 + int n) True False example_publisher)) =
     map (\<lambda>t. t\<lparr>stamp := stamp t + 500000000\<rparr>)
       (last (static_tf_broadcaster
          (publishFixedTransforms (\<lambda>n. 100 + int n) True True example_publisher)))"
    using publishFixed_dynamic_versus_static
            [of "\<lambda>n. 100 + int n" True example_publisher True]
    unfolding Let_def by blast
  then show ?thesis
    by (simp add: example_publishFixed_static example_publishFixed_dynamic)
qed

text \<open>
  Claim C6 as stated fails when a call misses the structure lock: here the static call
  sends its batch, and the dynamic call, missing the lock, sends none to the dynamic
  broadcaster.
\<close>

theorem publishFixed_dynamic_versus_static_counterexample:
  "segments_fixed example_publisher =
     [(''cam'', \<lparr>segment = seg_camera, root = ''/base_link'', tip = ''camera''\<rparr>)] \<and>
   static_tf_broadcaster
     (publishFixedTransforms (\<lambda>n. 100 + int n) True True example_publisher) =
     [[\<lparr>stamp = 100, frame_id = ''base_link'', child_frame_id = ''camera'', transform = 5\<rparr>]] \<and>
   tf_broadcaster example_publisher = [] \<and>
   tf_broadcaster
     (publishFixedTransforms (\<lambda>n. 100 + int n) False False example_publisher) = []"
  by (simp add: example_publishFixed_static publishFixedTransforms_missed)
     (simp add: example_publisher_eq)

section \<open>Publishing the moving transforms\<close>

lemma ROS_WARN_THROTTLE_segments [simp]:
  "segments (ROS_WARN_THROTTLE clock period name st) = segments st"
  by (simp add: ROS_WARN_THROTTLE_def Let_def)

lemma ROS_WARN_THROTTLE_inv:
  assumes "0 \<le> period" and "throttle_inv period st"
  shows "throttle_inv period (ROS_WARN_THROTTLE clock period name st)"
proof (cases "throttle_last_hit st + period * 1000000000 \<le> clock (clock_reads st)")
  case False
  then have "rosout (ROS_WARN_THROTTLE clock period name st) = rosout st"
    and "throttle_last_hit (ROS_WARN_THROTTLE clock period name st) = throttle_last_hit st"
    by (simp_all add: ROS_WARN_THROTTLE_def Let_def)
  with assms(2) show ?thesis by (simp add: throttle_inv_def)
next
  case True
  let ?now = "clock (clock_reads st)"
  from True have ro: "rosout (ROS_WARN_THROTTLE clock period name st) = rosout st @ [(?now, name)]"
    and lh: "throttle_last_hit (ROS_WARN_THROTTLE clock period name st) = ?now"
    by (simp_all add: ROS_WARN_THROTTLE_def Let_def)
  from assms(2) have sp: "spaced period (rosout st)"
    and old: "\<forall>a \<in> set (rosout st). fst a \<le> throttle_last_hit st"
    by (simp_all add: throttle_inv_def list_all_iff)
  have far: "\<forall>a \<in> set (rosout st). fst a + period * 1000000000 \<le> ?now"
  proof
    fix a assume "a \<in> set (rosout st)"
    with old have "fst a \<le> throttle_last_hit st" by blast
    with True show "fst a + period * 1000000000 \<le> ?now" by linarith
  qed
  have near: "\<forall>a \<in> set (rosout st). fst a \<le> ?now"
  proof
    fix a assume "a \<in> set (rosout st)"
    with far have "fst a + period * 1000000000 \<le> ?now" by blast
    moreover from assms(1) have "0 \<le> period * 1000000000" by simp
    ultimately show "fst a \<le> ?now" by linarith
  qed
  have "spaced period (rosout st @ [(?now, name)])"
    using sp far by (simp add: spaced_def sorted_wrt_append)
  moreover have "list_all (\<lambda>a. fst a \<le> ?now) (rosout st @ [(?now, name)])"
    using near by (simp add: list_all_iff)
  ultimately show ?thesis
    by (simp add: throttle_inv_def ro lh)
qed

lemma ROS_WARN_THROTTLE_rosout:
  "\<exists>new. rosout (ROS_WARN_THROTTLE clock period name st) = rosout st @ new \<and>
         snd ` set new \<subseteq> {name}"
  by (simp add: ROS_WARN_THROTTLE_def Let_def)

lemma publishTransforms_loop_batch:
  "snd (publishTransforms_loop clock jp time st acc) =
     acc @ concat (map (\<lambda>(name, q).
                     case map_find (segments st) name of
                       Some seg \<Rightarrow>
                         [\<lparr>stamp = time, frame_id = stripSlash (root seg),
                           child_frame_id = stripSlash (tip seg),
                           transform = pose (segment seg) q\<rparr>]
                     | None \<Rightarrow> []) jp)"
  by (induction jp arbitrary: st acc) (auto split: option.splits)

lemma publishTransforms_loop_frame:
  "\<exists>c h r. fst (publishTransforms_loop clock jp time st acc) =
     st\<lparr>clock_reads := c, throttle_last_hit := h, rosout := r\<rparr>"
proof (induction jp arbitrary: st acc)
  case Nil
  have "st = st\<lparr>clock_reads := clock_reads st, throttle_last_hit := throttle_last_hit st,
                rosout := rosout st\<rparr>"
    by simp
  then have "\<exists>c h r. st = st\<lparr>clock_reads := c, throttle_last_hit := h, rosout := r\<rparr>"
    by (intro exI)
  then show ?case by simp
next
  case (Cons a jp)
  obtain n q where a: "a = (n, q)" by (cases a)
  show ?case
  proof (cases "map_find (segments st) n")
    case None
    let ?w = "ROS_WARN_THROTTLE clock 10 n st"
    from Cons.IH [of ?w acc] obtain c h r where
      "fst (publishTransforms_loop clock jp time ?w acc) =
         ?w\<lparr>clock_reads := c, throttle_last_hit := h, rosout := r\<rparr>"
      by blast
    then have "fst (publishTransforms_loop clock (a # jp) time st acc) =
         st\<lparr>clock_reads := c, throttle_last_hit := h, rosout := r\<rparr>"
      by (simp add: a None ROS_WARN_THROTTLE_def Let_def)
    then show ?thesis by blast
  next
    case (Some seg)
    then show ?thesis
      using Cons.IH by (simp add: a)
  qed
qed

lemma publishTransforms_loop_segments:
  "segments (fst (publishTransforms_loop clock jp time st acc)) = segments st"
  "segments_fixed (fst (publishTransforms_loop clock jp time st acc)) = segments_fixed st"
  "mimic_map (fst (publishTransforms_loop clock jp time st acc)) = mimic_map st"
  "urdf_changed (fst (publishTransforms_loop clock jp time st acc)) = urdf_changed st"
  "tf_broadcaster (fst (publishTransforms_loop clock jp time st acc)) = tf_broadcaster st"
  "static_tf_broadcaster (fst (publishTransforms_loop clock jp time st acc)) =
     static_tf_broadcaster st"
proof -
  obtain c h r where "fst (publishTransforms_loop clock jp time st acc) =
     st\<lparr>clock_reads := c, throttle_last_hit := h, rosout := r\<rparr>"
    using publishTransforms_loop_frame by blast
  then show
    "segments (fst (publishTransforms_loop clock jp time st acc)) = segments st"
    "segments_fixed (fst (publishTransforms_loop clock jp time st acc)) = segments_fixed st"
    "mimic_map (fst (publishTransforms_loop clock jp time st acc)) = mimic_map st"
    "urdf_changed (fst (publishTransforms_loop clock jp time st acc)) = urdf_changed st"
    "tf_broadcaster (fst (publishTransforms_loop clock jp time st acc)) = tf_broadcaster st"
    "static_tf_broadcaster (fst (publishTransforms_loop clock jp time st acc)) =
       static_tf_broadcaster st"
    by simp_all
qed

lemma publishTransforms_loop_inv:
  "throttle_inv 10 st \<Longrightarrow> throttle_inv 10 (fst (publishTransforms_loop clock jp time st acc))"
proof (induction jp arbitrary: st acc)
  case Nil
  then show ?case by simp
next
  case (Cons a jp)
  obtain n q where a: "a = (n, q)" by (cases a)
  show ?case
  proof (cases "map_find (segments st) n")
    case None
    have "throttle_inv 10 (ROS_WARN_THROTTLE clock 10 n st)"
      using Cons.prems by (intro ROS_WARN_THROTTLE_inv) simp_all
    then have "throttle_inv 10
        (fst (publishTransforms_loop clock jp time (ROS_WARN_THROTTLE clock 10 n st) acc))"
      by (rule Cons.IH)
    then show ?thesis by (simp add: a None)
  next
    case (Some seg)
    with Cons.IH [OF Cons.prems] show ?thesis by (simp add: a)
  qed
qed

lemma keys_Cons: "keys ((k, v) # m) = insert k (keys m)"
  by (simp add: keys_def)

lemma publishTransforms_loop_rosout:
  "\<exists>new. rosout (fst (publishTransforms_loop clock jp time st acc)) = rosout st @ new \<and>
         snd ` set new \<subseteq> keys jp - keys (segments st)"
proof (induction jp arbitrary: st acc)
  case Nil
  show ?case by simp
next
  case (Cons a jp)
  obtain n q where a: "a = (n, q)" by (cases a)
  show ?case
  proof (cases "map_find (segments st) n")
    case None
    let ?w = "ROS_WARN_THROTTLE clock 10 n st"
    obtain new1 where n1: "rosout ?w = rosout st @ new1" "snd ` set new1 \<subseteq> {n}"
      using ROS_WARN_THROTTLE_rosout by blast
    obtain new2 where n2:
      "rosout (fst (publishTransforms_loop clock jp time ?w acc)) = rosout ?w @ new2"
      "snd ` set new2 \<subseteq> keys jp - keys (segments ?w)"
      using Cons.IH [of ?w acc] by blast
    have miss: "n \<in> keys (a # jp) - keys (segments st)"
      using None by (simp add: a keys_Cons map_find_None_iff)
    have sub: "keys jp \<subseteq> keys (a # jp)"
      by (auto simp: a keys_Cons)
    have n2': "snd ` set new2 \<subseteq> keys jp - keys (segments st)"
      using n2(2) by simp
    have un: "snd ` set (new1 @ new2) = snd ` set new1 \<union> snd ` set new2"
      by (simp add: image_Un)
    have "rosout (fst (publishTransforms_loop clock (a # jp) time st acc)) =
            rosout st @ (new1 @ new2)"
      by (simp add: a None n1 n2)
    moreover have "snd ` set (new1 @ new2) \<subseteq> keys (a # jp) - keys (segments st)"
      unfolding un using n1(2) n2' miss sub by blast
    ultimately show ?thesis by blast
  next
    case (Some seg)
    obtain new where n:
      "rosout (fst (publishTransforms_loop clock jp time st (acc @
              [\<lparr>stamp = time, frame_id = stripSlash (root seg),
                child_frame_id = stripSlash (tip seg),
                transform = pose (segment seg) q\<rparr>]))) = rosout st @ new"
      "snd ` set new \<subseteq> keys jp - keys (segments st)"
      using Cons.IH by blast
    have "rosout (fst (publishTransforms_loop clock (a # jp) time st acc)) = rosout st @ new"
      by (simp add: a Some n)
    moreover have "snd ` set new \<subseteq> keys (a # jp) - keys (segments st)"
      using n(2) by (auto simp: a keys_Cons)
    ultimately show ?thesis by blast
  qed
qed

lemma matched_count:
  assumes "stdmap_inv jp"
  shows "length (concat (map (\<lambda>(name, q).
                     case map_find segs name of
                       Some seg \<Rightarrow> [f seg q]
                     | None \<Rightarrow> []) jp)) = card (keys jp \<inter> keys segs)"
proof -
  have d: "distinct (map fst jp)" using assms by (rule stdmap_inv_distinct)
  have "length (concat (map (\<lambda>(name, q).
                     case map_find segs name of
                       Some seg \<Rightarrow> [f seg q]
                     | None \<Rightarrow> []) jp)) = length (filter (\<lambda>n. n \<in> keys segs) (map fst jp))"
    by (induction jp) (auto simp: map_find_None_iff split: option.splits)
  also have "\<dots> = card (set (filter (\<lambda>n. n \<in> keys segs) (map fst jp)))"
  proof -
    have "distinct (filter (\<lambda>n. n \<in> keys segs) (map fst jp))"
      using d by (rule distinct_filter)
    from distinct_card [OF this] show ?thesis by (rule sym)
  qed
  also have "set (filter (\<lambda>n. n \<in> keys segs) (map fst jp)) = keys jp \<inter> keys segs"
    by (auto simp: keys_def)
  finally show ?thesis .
qed

lemma ROS_WARN_THROTTLE_10:
  "ROS_WARN_THROTTLE clock 10 name st =
     (if throttle_last_hit st + 10000000000 \<le> clock (clock_reads st)
      then st\<lparr>clock_reads := Suc (clock_reads st),
              throttle_last_hit := clock (clock_reads st),
              rosout := rosout st @ [(clock (clock_reads st), name)]\<rparr>
      else st\<lparr>clock_reads := Suc (clock_reads st)\<rparr>)"
  by (simp add: ROS_WARN_THROTTLE_def Let_def)

lemma publishTransforms_loop_state:
  "fst (publishTransforms_loop clock jp time st acc) =
     fold (ROS_WARN_THROTTLE clock 10)
       (filter (\<lambda>name. map_find (segments st) name = None) (map fst jp)) st"
  by (induction jp arbitrary: st acc) (auto split: option.splits)

lemma fold_throttle_reads:
  "clock_reads (fold (ROS_WARN_THROTTLE clock p) ns s) = clock_reads s + length ns"
  by (induction ns arbitrary: s) (simp_all add: ROS_WARN_THROTTLE_def Let_def)

lemma fold_throttle_rosout:
  "\<exists>new. rosout (fold (ROS_WARN_THROTTLE clock p) ns s) = rosout s @ new"
proof (induction ns arbitrary: s)
  case Nil
  show ?case by simp
next
  case (Cons n ns)
  obtain new1 where 1: "rosout (ROS_WARN_THROTTLE clock p n s) = rosout s @ new1"
    using ROS_WARN_THROTTLE_rosout by blast
  obtain new2 where "rosout (fold (ROS_WARN_THROTTLE clock p) ns (ROS_WARN_THROTTLE clock p n s)) =
      rosout (ROS_WARN_THROTTLE clock p n s) @ new2"
    using Cons.IH by blast
  with 1 have "rosout (fold (ROS_WARN_THROTTLE clock p) (n # ns) s) = rosout s @ (new1 @ new2)"
    by simp
  then show ?case by blast
qed

lemma fold_throttle_first_printed:
  assumes "ns \<noteq> []" and "throttle_last_hit s + 10000000000 \<le> clock (clock_reads s)"
  shows "(clock (clock_reads s), hd ns) \<in> set (rosout (fold (ROS_WARN_THROTTLE clock 10) ns s))"
proof -
  obtain n rest where ns: "ns = n # rest"
    using assms(1) by (cases ns) auto
  have "rosout (ROS_WARN_THROTTLE clock 10 n s) = rosout s @ [(clock (clock_reads s), n)]"
    using assms(2) by (simp add: ROS_WARN_THROTTLE_10)
  moreover obtain new where
    "rosout (fold (ROS_WARN_THROTTLE clock 10) rest (ROS_WARN_THROTTLE clock 10 n s)) =
       rosout (ROS_WARN_THROTTLE clock 10 n s) @ new"
    using fold_throttle_rosout by blast
  ultimately show ?thesis
    by (simp add: ns)
qed

text \<open>
  Claim C7, as amended. When \<^verbatim>\<open>publishTransforms\<close> takes the structure lock it hands
  the dynamic broadcaster one batch: one transform for every entry of the joint
  positions whose name is a key of the moving table, in the order of the names, and
  none for the other entries, so as many transforms as there are names in both. For
  every entry whose name the moving table lacks it calls the throttled warning once,
  in the order of the names, and goes on with the entries that follow. A call of the
  throttled warning reads the clock and prints when 10000000000 nanoseconds, ten
  seconds, or more have passed since the last warning printed; so the first missing
  name is reported when the last warning is that old, the warnings printed are about
  missing names only, and any warning comes ten seconds or more after every earlier
  one, hence so do the warnings about one joint. The tables are not changed. When the
  lock is missed nothing is changed.
\<close>

theorem publishTransforms_matched_and_missing:
  assumes "stdmap_inv joint_positions" and "throttle_inv 10 st"
  shows
    "(let st' = publishTransforms clock owns_lock joint_positions time st;
          missing = filter (\<lambda>name. map_find (segments st) name = None) (map fst joint_positions);
          batch =
            concat (map (\<lambda>(name, q).
                     case map_find (segments st) name of
                       Some seg \<Rightarrow>
                         [\<lparr>stamp = time, frame_id = stripSlash (root seg),
                           child_frame_id = stripSlash (tip seg),
                           transform = pose (segment seg) q\<rparr>]
                     | None \<Rightarrow> []) joint_positions)
      in if owns_lock
         then st' = (fold (ROS_WARN_THROTTLE clock 10) missing st)
                      \<lparr>tf_broadcaster := tf_broadcaster st @ [batch]\<rparr> \<and>
              tf_broadcaster st' = tf_broadcaster st @ [batch] \<and>
              static_tf_broadcaster st' = static_tf_broadcaster st \<and>
              segments st' = segments st \<and> segments_fixed st' = segments_fixed st \<and>
              length batch = card (keys joint_positions \<inter> keys (segments st)) \<and>
              clock_reads st' = clock_reads st + length missing \<and>
              (missing \<noteq> [] \<and> throttle_last_hit st + 10000000000 \<le> clock (clock_reads st) \<longrightarrow>
                 (clock (clock_reads st), hd missing) \<in> set (rosout st')) \<and>
              (\<exists>new. rosout st' = rosout st @ new \<and>
                     snd ` set new \<subseteq> keys joint_positions - keys (segments st)) \<and>
              sorted_wrt (\<lambda>a b. fst a + 10000000000 \<le> fst b) (rosout st') \<and>
              (\<forall>name. sorted_wrt (\<lambda>a b. fst a + 10000000000 \<le> fst b)
                        (filter (\<lambda>w. snd w = name) (rosout st'))) \<and>
              throttle_inv 10 st'
         else st' = st) \<and>
     ROS_WARN_THROTTLE clock 10 name st =
       (if throttle_last_hit st + 10000000000 \<le> clock (clock_reads st)
        then st\<lparr>clock_reads := Suc (clock_reads st),
                throttle_last_hit := clock (clock_reads st),
                rosout := rosout st @ [(clock (clock_reads st), name)]\<rparr>
        else st\<lparr>clock_reads := Suc (clock_reads st)\<rparr>)"
proof -
  let ?loop = "publishTransforms_loop clock joint_positions time st []"
  let ?st' = "publishTransforms clock True joint_positions time st"
  let ?missing = "filter (\<lambda>name. map_find (segments st) name = None) (map fst joint_positions)"
  let ?w = "fold (ROS_WARN_THROTTLE clock 10) ?missing st"
  let ?batch = "concat (map (\<lambda>(name, q).
                     case map_find (segments st) name of
                       Some seg \<Rightarrow>
                         [\<lparr>stamp = time, frame_id = stripSlash (root seg),
                           child_frame_id = stripSlash (tip seg),
                           transform = pose (segment seg) q\<rparr>]
                     | None \<Rightarrow> []) joint_positions)"
  have fstl: "fst ?loop = ?w"
    by (rule publishTransforms_loop_state)
  have b: "snd ?loop = ?batch"
    by (simp add: publishTransforms_loop_batch)
  have tfw: "tf_broadcaster ?w = tf_broadcaster st"
    unfolding fstl [symmetric] by (rule publishTransforms_loop_segments)
  have "?st' = (fst ?loop)\<lparr>tf_broadcaster := tf_broadcaster (fst ?loop) @ [snd ?loop]\<rparr>"
    by (simp add: publishTransforms_def split_def Let_def)
  then have c0: "?st' = ?w\<lparr>tf_broadcaster := tf_broadcaster st @ [?batch]\<rparr>"
    unfolding b fstl tfw .
  have c1: "tf_broadcaster ?st' = tf_broadcaster st @ [?batch]"
    unfolding c0 by simp
  have c2: "static_tf_broadcaster ?st' = static_tf_broadcaster st"
    "segments ?st' = segments st" "segments_fixed ?st' = segments_fixed st"
    unfolding c0 fstl [symmetric] by (simp_all add: publishTransforms_loop_segments)
  have c4: "length ?batch = card (keys joint_positions \<inter> keys (segments st))"
    using assms(1) by (rule matched_count)
  have ro: "rosout ?st' = rosout ?w" and lh: "throttle_last_hit ?st' = throttle_last_hit ?w"
    unfolding c0 by simp_all
  have c5: "clock_reads ?st' = clock_reads st + length ?missing"
    unfolding c0 by (simp add: fold_throttle_reads)
  have c6: "(clock (clock_reads st), hd ?missing) \<in> set (rosout ?st')"
    if "?missing \<noteq> []" "throttle_last_hit st + 10000000000 \<le> clock (clock_reads st)"
    unfolding ro using that by (rule fold_throttle_first_printed)
  have c7: "\<exists>new. rosout ?st' = rosout st @ new \<and>
                snd ` set new \<subseteq> keys joint_positions - keys (segments st)"
    unfolding ro fstl [symmetric] by (rule publishTransforms_loop_rosout)
  have "throttle_inv 10 (fst ?loop)"
    using assms(2) by (rule publishTransforms_loop_inv)
  then have c8: "throttle_inv 10 ?st'"
    by (simp add: throttle_inv_def ro lh fstl)
  then have c9: "sorted_wrt (\<lambda>a b. fst a + 10000000000 \<le> fst b) (rosout ?st')"
    by (simp add: throttle_inv_def spaced_def)
  then have c10: "\<forall>name. sorted_wrt (\<lambda>a b. fst a + 10000000000 \<le> fst b)
                        (filter (\<lambda>w. snd w = name) (rosout ?st'))"
    by (simp add: sorted_wrt_filter)
  have pin: "ROS_WARN_THROTTLE clock 10 name st =
       (if throttle_last_hit st + 10000000000 \<le> clock (clock_reads st)
        then st\<lparr>clock_reads := Suc (clock_reads st),
                throttle_last_hit := clock (clock_reads st),
                rosout := rosout st @ [(clock (clock_reads st), name)]\<rparr>
        else st\<lparr>clock_reads := Suc (clock_reads st)\<rparr>)"
    by (rule ROS_WARN_THROTTLE_10)
  have c6': "?missing \<noteq> [] \<and> throttle_last_hit st + 10000000000 \<le> clock (clock_reads st) \<longrightarrow>
      (clock (clock_reads st), hd ?missing) \<in> set (rosout ?st')"
    using c6 by blast
  have miss: "publishTransforms clock False joint_positions time st = st"
    by (simp add: publishTransforms_def)
  show ?thesis
  proof (cases owns_lock)
    case True
    then have ol: "owns_lock = True" by simp
    show ?thesis
      unfolding Let_def ol if_True
      by (intro conjI) (fact c0 c1 c2 c4 c5 c6' c7 c8 c9 c10 pin)+
  next
    case False
    then have ol: "owns_lock = False" by simp
    show ?thesis
      unfolding Let_def ol if_False
      by (intro conjI) (fact miss pin)+
  qed
qed

lemma example_publishTransforms:
  "publishTransforms (\<lambda>n. 20000000000 + int n) True [(''A'', 1), (''X'', 2), (''Y'', 3)] 5
     example_publisher =
   example_publisher
     \<lparr>tf_broadcaster :=
        [[\<lparr>stamp = 5, frame_id = ''base_link'', child_frame_id = ''arm'', transform = 1\<rparr>]],
      clock_reads := 2, throttle_last_hit := 20000000000,
      rosout := [(20000000000, ''X'')]\<rparr>"
  by (simp add: publishTransforms_def example_publisher_eq map_find_def ROS_WARN_THROTTLE_def
      Let_def stripSlash_def seg_arm_def)

theorem publishTransforms_matched_and_missing_witness:
  "stdmap_inv [(''A'', 1::real), (''X'', 2), (''Y'', 3)] \<and>
   throttle_inv 10 example_publisher \<and>
   filter (\<lambda>name. map_find (segments example_publisher) name = None)
     (map fst [(''A'', 1::real), (''X'', 2), (''Y'', 3)]) = [''X'', ''Y''] \<and>
   throttle_last_hit example_publisher + 10000000000 \<le> 20000000000 + int (clock_reads example_publisher) \<and>
   keys [(''A'', 1::real), (''X'', 2), (''Y'', 3)] \<inter> keys (segments example_publisher) = {''A''} \<and>
   tf_broadcaster
     (publishTransforms (\<lambda>n. 20000000000 + int n) True [(''A'', 1), (''X'', 2), (''Y'', 3)] 5
        example_publisher) =
     [[\<lparr>stamp = 5, frame_id = ''base_link'', child_frame_id = ''arm'', transform = 1\<rparr>]] \<and>
   rosout
     (publishTransforms (\<lambda>n. 20000000000 + int n) True [(''A'', 1), (''X'', 2), (''Y'', 3)] 5
        example_publisher) = [(20000000000, ''X'')] \<and>
   clock_reads
     (publishTransforms (\<lambda>n. 20000000000 + int n) True [(''A'', 1), (''X'', 2), (''Y'', 3)] 5
        example_publisher) = 2"
proof -
  let ?jp = "[(''A'', 1::real), (''X'', 2), (''Y'', 3)]"
  let ?clock = "\<lambda>n. 20000000000 + int n"
  let ?st' = "publishTransforms ?clock True ?jp 5 example_publisher"
  let ?missing = "filter (\<lambda>name. map_find (segments example_publisher) name = None) (map fst ?jp)"
  have h1: "stdmap_inv ?jp"
    by (simp add: stdmap_inv_def)
  have h2: "throttle_inv 10 example_publisher"
    by (simp add: throttle_inv_def spaced_def example_publisher_eq)
  have m: "?missing = [''X'', ''Y'']"
    by (simp add: example_publisher_eq map_find_def)
  have due: "throttle_last_hit example_publisher + 10000000000
               \<le> 20000000000 + int (clock_reads example_publisher)"
    by (simp add: example_publisher_eq)
  have k: "keys ?jp \<inter> keys (segments example_publisher) = {''A''}"
    by (simp add: keys_def example_publisher_eq)
  note inst = publishTransforms_matched_and_missing
    [OF h1 h2, where clock = ?clock and owns_lock = True and time = 5 and name = "''X''",
     unfolded Let_def if_True]
  from inst have reads: "clock_reads ?st' = clock_reads example_publisher + length ?missing"
    by (elim conjE)
  from inst have "?missing \<noteq> [] \<and>
      throttle_last_hit example_publisher + 10000000000 \<le> ?clock (clock_reads example_publisher) \<longrightarrow>
      (?clock (clock_reads example_publisher), hd ?missing) \<in> set (rosout ?st')"
    by (elim conjE)
  with m due have printed: "(20000000000, ''X'') \<in> set (rosout ?st')"
    by (simp add: example_publisher_eq)
  from h1 h2 m due k reads printed show ?thesis
    by (simp add: example_publishTransforms)
qed

text \<open>
  Claim C7 as stated fails when the call misses the structure lock: the joint \<open>A\<close>
  is in the batch and in the moving table, and no transform is sent.
\<close>

theorem publishTransforms_matched_and_missing_counterexample:
  "map_find (segments example_publisher) ''A'' =
     Some \<lparr>segment = seg_arm, root = ''/base_link'', tip = ''/arm''\<rparr> \<and>
   tf_broadcaster example_publisher = [] \<and>
   tf_broadcaster
     (publishTransforms (\<lambda>n. 20000000000 + int n) False [(''A'', 1)] 5 example_publisher) = []"
  by (simp add: publishTransforms_def example_publisher_eq map_find_def)

section \<open>Frame names\<close>

lemma frames_moving_batch:
  "map (\<lambda>t. (frame_id t, child_frame_id t))
     (concat (map (\<lambda>(name, q).
                     case map_find segs name of
                       Some seg \<Rightarrow>
                         [\<lparr>stamp = time, frame_id = stripSlash (root seg),
                           child_frame_id = stripSlash (tip seg),
                           transform = pose (segment seg) q\<rparr>]
                     | None \<Rightarrow> []) jp)) =
   concat (map (\<lambda>(name, q).
                     case map_find segs name of
                       Some seg \<Rightarrow> [(stripSlash (root seg), stripSlash (tip seg))]
                     | None \<Rightarrow> []) jp)"
  by (induction jp) (auto split: option.splits)

lemma frames_fixed_batch:
  "map (\<lambda>t. (frame_id t, child_frame_id t))
     (map (\<lambda>(i, k, sp).
             \<lparr>stamp = s i, frame_id = stripSlash (root sp),
              child_frame_id = stripSlash (tip sp), transform = pose (segment sp) 0\<rparr>)
        (List.enumerate n m)) =
   map (\<lambda>(k, sp). (stripSlash (root sp), stripSlash (tip sp))) m"
  by (induction m arbitrary: n) auto

text \<open>
  Claim C8. \<^verbatim>\<open>stripSlash\<close> drops one leading slash: \<open>/base_link\<close> becomes
  \<open>base_link\<close>, and a name that is empty or starts with another character is
  returned as it is. The parent and child frame names of every transform published,
  moving or fixed, on either broadcaster, are the stripped root and tip of its segment
  pair.
\<close>

theorem frame_names_normalized:
  "stripSlash ''/base_link'' = ''base_link'' \<and>
   stripSlash (CHR ''/'' # name) = name \<and>
   (name = [] \<or> hd name \<noteq> CHR ''/'' \<longrightarrow> stripSlash name = name) \<and>
   map (\<lambda>t. (frame_id t, child_frame_id t))
     (last (tf_broadcaster (publishTransforms clock True joint_positions time st))) =
     concat (map (\<lambda>(name, q).
                     case map_find (segments st) name of
                       Some seg \<Rightarrow> [(stripSlash (root seg), stripSlash (tip seg))]
                     | None \<Rightarrow> []) joint_positions) \<and>
   map (\<lambda>t. (frame_id t, child_frame_id t))
     (last (static_tf_broadcaster (publishFixedTransforms clock True True st))) =
     map (\<lambda>(k, sp). (stripSlash (root sp), stripSlash (tip sp))) (segments_fixed st) \<and>
   map (\<lambda>t. (frame_id t, child_frame_id t))
     (last (tf_broadcaster (publishFixedTransforms clock True False st))) =
     map (\<lambda>(k, sp). (stripSlash (root sp), stripSlash (tip sp))) (segments_fixed st)"
proof -
  have 1: "stripSlash ''/base_link'' = ''base_link''"
    by (simp add: stripSlash_def)
  have 2: "stripSlash (CHR ''/'' # name) = name"
    by (simp add: stripSlash_def)
  have 3: "name = [] \<or> hd name \<noteq> CHR ''/'' \<longrightarrow> stripSlash name = name"
    by (cases name) (auto simp: stripSlash_def)
  have "last (tf_broadcaster (publishTransforms clock True joint_positions time st)) =
      snd (publishTransforms_loop clock joint_positions time st [])"
    by (simp add: publishTransforms_def split_def Let_def)
  then have 4: "map (\<lambda>t. (frame_id t, child_frame_id t))
     (last (tf_broadcaster (publishTransforms clock True joint_positions time st))) =
     concat (map (\<lambda>(name, q).
                     case map_find (segments st) name of
                       Some seg \<Rightarrow> [(stripSlash (root seg), stripSlash (tip seg))]
                     | None \<Rightarrow> []) joint_positions)"
    by (simp only: publishTransforms_loop_batch append_Nil frames_moving_batch)
  have l5: "last (static_tf_broadcaster (publishFixedTransforms clock True True st)) =
      map (\<lambda>(i, k, sp).
             \<lparr>stamp = clock i, frame_id = stripSlash (root sp),
              child_frame_id = stripSlash (tip sp), transform = pose (segment sp) 0\<rparr>)
        (List.enumerate (clock_reads st) (segments_fixed st))"
    by (simp add: publishFixedTransforms_static)
  have 5: "map (\<lambda>t. (frame_id t, child_frame_id t))
     (last (static_tf_broadcaster (publishFixedTransforms clock True True st))) =
     map (\<lambda>(k, sp). (stripSlash (root sp), stripSlash (tip sp))) (segments_fixed st)"
    unfolding l5 by (rule frames_fixed_batch)
  have l6: "last (tf_broadcaster (publishFixedTransforms clock True False st)) =
      map (\<lambda>(i, k, sp).
             \<lparr>stamp = clock i + Duration_half_second, frame_id = stripSlash (root sp),
              child_frame_id = stripSlash (tip sp), transform = pose (segment sp) 0\<rparr>)
        (List.enumerate (clock_reads st) (segments_fixed st))"
    by (simp add: publishFixedTransforms_dynamic)
  have 6: "map (\<lambda>t. (frame_id t, child_frame_id t))
     (last (tf_broadcaster (publishFixedTransforms clock True False st))) =
     map (\<lambda>(k, sp). (stripSlash (root sp), stripSlash (tip sp))) (segments_fixed st)"
    unfolding l6 by (rule frames_fixed_batch)
  from 1 2 3 4 5 6 show ?thesis by blast
qed

theorem frame_names_normalized_witness:
  "(''base_link'' = [] \<or> hd ''base_link'' \<noteq> CHR ''/'') \<and>
   stripSlash ''base_link'' = ''base_link'' \<and>
   map_find (segments example_publisher) ''A'' =
     Some \<lparr>segment = seg_arm, root = ''/base_link'', tip = ''/arm''\<rparr> \<and>
   map (\<lambda>t. (frame_id t, child_frame_id t))
     (last (tf_broadcaster (publishTransforms (\<lambda>n. 0) True [(''A'', 1)] 5 example_publisher))) =
     [(''base_link'', ''arm'')] \<and>
   segments_fixed example_publisher =
     [(''cam'', \<lparr>segment = seg_camera, root = ''/base_link'', tip = ''camera''\<rparr>)] \<and>
   map (\<lambda>t. (frame_id t, child_frame_id t))
     (last (static_tf_broadcaster (publishFixedTransforms (\<lambda>n. 0) True True example_publisher))) =
     [(''base_link'', ''camera'')]"
proof -
  have h: "''base_link'' = [] \<or> hd ''base_link'' \<noteq> CHR ''/''"
    by simp
  have segs: "map_find (segments example_publisher) ''A'' =
     Some \<lparr>segment = seg_arm, root = ''/base_link'', tip = ''/arm''\<rparr>"
    "segments_fixed example_publisher =
     [(''cam'', \<lparr>segment = seg_camera, root = ''/base_link'', tip = ''camera''\<rparr>)]"
    by (simp_all add: example_publisher_eq map_find_def)
  from frame_names_normalized
    [of "''base_link''" "\<lambda>n. 0" "[(''A'', 1)]" 5 example_publisher] h segs
  show ?thesis
    by (simp add: stripSlash_def)
qed

section \<open>Republishing after a change of the description\<close>

lemma publishFixedTransforms_static_unstamped:
  "map unstamped (last (static_tf_broadcaster (publishFixedTransforms clock True True st))) =
     map (\<lambda>(k, sp). (stripSlash (root sp), stripSlash (tip sp), pose (segment sp) 0))
       (segments_fixed st)"
proof -
  have l: "last (static_tf_broadcaster (publishFixedTransforms clock True True st)) =
      map (\<lambda>(i, k, sp).
             \<lparr>stamp = clock i, frame_id = stripSlash (root sp),
              child_frame_id = stripSlash (tip sp), transform = pose (segment sp) 0\<rparr>)
        (List.enumerate (clock_reads st) (segments_fixed st))"
    by (simp add: publishFixedTransforms_static)
  show ?thesis
    unfolding l by (simp add: unstamped_fixed_batch)
qed

lemma onURDFSwap_sets_flag:
  "initialized st \<Longrightarrow> urdf_changed (onURDFSwap new_tree new_urdf st)"
  by (simp add: onURDFSwap_def Let_def)

text \<open>
  Claim C5, as amended. On an initialised publisher \<^verbatim>\<open>onURDFSwap\<close> sets the flag.
  A next call of \<^verbatim>\<open>setRobotDescriptionIfChanged\<close> that takes the structure lock
  hands the static broadcaster one batch with a transform at position zero for every
  entry of the fixed table, hands nothing to the dynamic one and clears the flag; a
  second call right after it changes nothing, whatever its lock attempt gives. A next
  call that misses the lock hands nothing to either broadcaster.
\<close>

theorem republish_after_description_change:
  assumes "initialized st"
  shows
    "(let st1 = onURDFSwap new_tree new_urdf st;
          st2 = setRobotDescriptionIfChanged clock True st1;
          st3 = setRobotDescriptionIfChanged clock' owns_lock' st2;
          missed = setRobotDescriptionIfChanged clock False st1
      in urdf_changed st1 \<and>
         \<not> urdf_changed st2 \<and>
         static_tf_broadcaster st2 =
           static_tf_broadcaster st1 @ [last (static_tf_broadcaster st2)] \<and>
         map unstamped (last (static_tf_broadcaster st2)) =
           map (\<lambda>(k, sp). (stripSlash (root sp), stripSlash (tip sp), pose (segment sp) 0))
             (segments_fixed st1) \<and>
         tf_broadcaster st2 = tf_broadcaster st1 \<and>
         segments_fixed st2 = segments_fixed st1 \<and>
         st3 = st2 \<and>
         static_tf_broadcaster missed = static_tf_broadcaster st1 \<and>
         tf_broadcaster missed = tf_broadcaster st1)"
proof -
  let ?st1 = "onURDFSwap new_tree new_urdf st"
  let ?st2 = "setRobotDescriptionIfChanged clock True ?st1"
  let ?cleared = "?st1\<lparr>urdf_changed := False\<rparr>"
  have flag: "urdf_changed ?st1"
    using assms by (rule onURDFSwap_sets_flag)
  then have st2: "?st2 = publishFixedTransforms clock True True ?cleared"
    by (simp add: setRobotDescriptionIfChanged_def setRobotDescription_def)
  have c2: "\<not> urdf_changed ?st2"
    unfolding st2 by (simp add: publishFixedTransforms_static)
  have c4: "map unstamped (last (static_tf_broadcaster ?st2)) =
           map (\<lambda>(k, sp). (stripSlash (root sp), stripSlash (tip sp), pose (segment sp) 0))
             (segments_fixed ?st1)"
    using publishFixedTransforms_static_unstamped [of clock ?cleared]
    unfolding st2 by simp
  have c3: "static_tf_broadcaster ?st2 =
           static_tf_broadcaster ?st1 @ [last (static_tf_broadcaster ?st2)]"
    unfolding st2 by (simp add: publishFixedTransforms_static)
  have c5: "tf_broadcaster ?st2 = tf_broadcaster ?st1"
    unfolding st2 by (simp add: publishFixedTransforms_static)
  have c6: "segments_fixed ?st2 = segments_fixed ?st1"
    unfolding st2 by (simp add: publishFixedTransforms_static)
  have c7: "setRobotDescriptionIfChanged clock' owns_lock' ?st2 = ?st2"
    using c2 by (simp add: setRobotDescriptionIfChanged_def)
  have c8: "static_tf_broadcaster (setRobotDescriptionIfChanged clock False ?st1) =
              static_tf_broadcaster ?st1"
    "tf_broadcaster (setRobotDescriptionIfChanged clock False ?st1) = tf_broadcaster ?st1"
    using flag
    by (simp_all add: setRobotDescriptionIfChanged_def setRobotDescription_def
        publishFixedTransforms_missed)
  show ?thesis
    unfolding Let_def using flag c2 c3 c4 c5 c6 c7 c8 by blast
qed

lemma example_swap:
  "onURDFSwap example_tree (Some example_model) example_publisher =
     example_publisher\<lparr>urdf_changed := True\<rparr>"
  unfolding example_publisher_eq
  by (simp add: onURDFSwap_def Let_def setJointMimicMap_def example_tree_def example_model_def
      getJoint_def map_find_def seg_base_def seg_arm_def seg_finger_def seg_camera_def seg_imu_def)

theorem republish_after_description_change_witness:
  "initialized example_publisher \<and>
   urdf_changed (onURDFSwap example_tree (Some example_model) example_publisher) \<and>
   static_tf_broadcaster
     (setRobotDescriptionIfChanged (\<lambda>n. 100 + int n) True
        (onURDFSwap example_tree (Some example_model) example_publisher)) =
     [[\<lparr>stamp = 100, frame_id = ''base_link'', child_frame_id = ''camera'', transform = 5\<rparr>]] \<and>
   urdf_changed
     (setRobotDescriptionIfChanged (\<lambda>n. 100 + int n) True
        (onURDFSwap example_tree (Some example_model) example_publisher)) = False \<and>
   static_tf_broadcaster
     (setRobotDescriptionIfChanged (\<lambda>n. 100 + int n) True
        (setRobotDescriptionIfChanged (\<lambda>n. 100 + int n) True
           (onURDFSwap example_tree (Some example_model) example_publisher))) =
     [[\<lparr>stamp = 100, frame_id = ''base_link'', child_frame_id = ''camera'', transform = 5\<rparr>]]"
proof -
  let ?clock = "\<lambda>n. 100 + int n"
  let ?st1 = "onURDFSwap example_tree (Some example_model) example_publisher"
  let ?st2 = "setRobotDescriptionIfChanged ?clock True ?st1"
  have h: "initialized example_publisher"
    by (simp add: example_publisher_eq)
  have st2: "static_tf_broadcaster ?st2 =
     [[\<lparr>stamp = 100, frame_id = ''base_link'', child_frame_id = ''camera'', transform = 5\<rparr>]]"
    unfolding example_swap
    by (simp add: setRobotDescriptionIfChanged_def setRobotDescription_def
        publishFixedTransforms_def example_publisher_eq stripSlash_def seg_camera_def)
  from republish_after_description_change
         [OF h, of example_tree "Some example_model" ?clock ?clock True]
  have "urdf_changed ?st1" and "\<not> urdf_changed ?st2"
    and "setRobotDescriptionIfChanged ?clock True ?st2 = ?st2"
    unfolding Let_def by blast+
  with h st2 show ?thesis by simp
qed

text \<open>
  Claim C5 as stated fails when the first call does not get the structure lock:
  nothing is emitted although the fixed table is not empty. The flag is cleared before
  \<^verbatim>\<open>publishFixedTransforms\<close> tries the lock, so it is down all the same.
\<close>

theorem republish_after_description_change_counterexample:
  "urdf_changed (onURDFSwap example_tree (Some example_model) example_publisher) \<and>
   segments_fixed (onURDFSwap example_tree (Some example_model) example_publisher) =
     [(''cam'', \<lparr>segment = seg_camera, root = ''/base_link'', tip = ''camera''\<rparr>)] \<and>
   static_tf_broadcaster
     (setRobotDescriptionIfChanged (\<lambda>n. 100 + int n) False
        (onURDFSwap example_tree (Some example_model) example_publisher)) = [] \<and>
   tf_broadcaster
     (setRobotDescriptionIfChanged (\<lambda>n. 100 + int n) False
        (onURDFSwap example_tree (Some example_model) example_publisher)) = [] \<and>
   urdf_changed
     (setRobotDescriptionIfChanged (\<lambda>n. 100 + int n) False
        (onURDFSwap example_tree (Some example_model) example_publisher)) = False"
  unfolding example_swap
  by (simp add: setRobotDescriptionIfChanged_def setRobotDescription_def
      publishFixedTransforms_def example_publisher_eq)

end
